theory Spec2Isabelle
  imports Main
begin

section \<open>encapt: a shallow embedding of \<^verbatim>\<open>encapt.py\<close>\<close>

text \<open>
  The program scans a directory of Kotlin files (one ``bean'' per file), registers one
  chat agent per bean with a multi-agent workforce, and offers the agents five tools
  (write a file, create a directory, run all tests, run one test, send a message).

  The embedding keeps the Python names. What the interpreter and the operating system
  do for the program (strings, the file system, \<^verbatim>\<open>os.walk\<close>, \<^verbatim>\<open>subprocess.run\<close>,
  the workforce's list of registered workers) is written out as data and functions on
  that data; every exception the modelled calls raise is a value of type \<open>exn\<close>, and a
  function that can let one escape returns \<open>exn + 'a\<close>.
\<close>

subsection \<open>Python strings\<close>

text \<open>
  A Python \<^verbatim>\<open>str\<close> is a sequence of code points; a code point is a natural number.
  \<open>ustr\<close> reads an ASCII literal as such a sequence.
\<close>

type_synonym pystr = "nat list"

definition ustr :: "string \<Rightarrow> pystr" where
  "ustr s = map of_char s"

text \<open>\<^verbatim>\<open>s.startswith(p)\<close> and \<^verbatim>\<open>s.endswith(p)\<close>.\<close>

definition startswith :: "pystr \<Rightarrow> pystr \<Rightarrow> bool" where
  "startswith s p = (take (length p) s = p)"

definition endswith :: "pystr \<Rightarrow> pystr \<Rightarrow> bool" where
  "endswith s p = (length p \<le> length s \<and> drop (length s - length p) s = p)"

text \<open>
  \<^verbatim>\<open>s.find(sub, start)\<close>: the lowest index \<open>\<ge> start\<close> at which \<open>sub\<close> occurs in \<open>s\<close>,
  or \<open>-1\<close>. A negative \<open>start\<close> counts from the end of \<open>s\<close> (and is clipped at \<open>0\<close>); a
  \<open>start\<close> beyond the end finds nothing. \<open>find_at sub t i\<close> scans the suffix \<open>t\<close> of \<open>s\<close>
  that begins at index \<open>i\<close>.
\<close>

fun find_at :: "pystr \<Rightarrow> pystr \<Rightarrow> nat \<Rightarrow> int" where
  "find_at sub [] i = (if sub = [] then int i else - 1)"
| "find_at sub (x # xs) i =
     (if startswith (x # xs) sub then int i else find_at sub xs (Suc i))"

definition str_find :: "pystr \<Rightarrow> pystr \<Rightarrow> int \<Rightarrow> int" where
  "str_find s sub start =
     (let n = int (length s);
          st = (if start < 0 then max 0 (start + n) else start)
      in if n < st then - 1 else find_at sub (drop (nat st) s) (nat st))"

text \<open>
  The slice \<^verbatim>\<open>s[i:j]\<close>: negative bounds count from the end, and both bounds are
  clipped to \<open>0 .. len(s)\<close>.
\<close>

definition slice :: "pystr \<Rightarrow> int \<Rightarrow> int \<Rightarrow> pystr" where
  "slice s i j =
     (let n = int (length s);
          a = (if i < 0 then max 0 (i + n) else min i n);
          b = (if j < 0 then max 0 (j + n) else min j n)
      in take (nat (b - a)) (drop (nat a) s))"

text \<open>
  \<^verbatim>\<open>s.strip()\<close> removes leading and trailing whitespace. \<open>isspace\<close> lists the code
  points for which \<^verbatim>\<open>str.isspace\<close> holds: U+0009..U+000D, U+001C..U+0020, U+0085,
  U+00A0, U+1680, U+2000..U+200A, U+2028, U+2029, U+202F, U+205F, U+3000.
\<close>

definition isspace :: "nat \<Rightarrow> bool" where
  "isspace c =
     ((9 \<le> c \<and> c \<le> 13) \<or> (28 \<le> c \<and> c \<le> 32) \<or> c = 133 \<or> c = 160 \<or> c = 5760
      \<or> (8192 \<le> c \<and> c \<le> 8202) \<or> c = 8232 \<or> c = 8233 \<or> c = 8239 \<or> c = 8287
      \<or> c = 12288)"

definition strip :: "pystr \<Rightarrow> pystr" where
  "strip s = rev (dropWhile isspace (rev (dropWhile isspace s)))"

text \<open>
  \<^verbatim>\<open>sep.join(xs)\<close> and \<^verbatim>\<open>s.split(sep)\<close> for a one-character separator.
  \<open>split_on\<close> always returns at least one piece; \<open>split_first\<close> is
  \<^verbatim>\<open>s.split(sep)[0]\<close>, the text before the first separator.
\<close>

fun join :: "pystr \<Rightarrow> pystr list \<Rightarrow> pystr" where
  "join sep [] = []"
| "join sep [x] = x"
| "join sep (x # y # ys) = x @ sep @ join sep (y # ys)"

fun split_on :: "nat \<Rightarrow> pystr \<Rightarrow> pystr list" where
  "split_on sep [] = [[]]"
| "split_on sep (c # cs) =
     (if c = sep then [] # split_on sep cs
      else (case split_on sep cs of
              [] \<Rightarrow> [[c]]
            | p # ps \<Rightarrow> (c # p) # ps))"

definition split_first :: "nat \<Rightarrow> pystr \<Rightarrow> pystr" where
  "split_first sep s = hd (split_on sep s)"

text \<open>
  Two notions used to state properties of \<open>str_find\<close> (they are not part of the
  program): \<open>sub\<close> occurs in \<open>s\<close> at index \<open>k\<close>, and the ascending list of all indices at
  which it occurs.
\<close>

definition occurs_at :: "pystr \<Rightarrow> pystr \<Rightarrow> nat \<Rightarrow> bool" where
  "occurs_at sub s k = (k + length sub \<le> length s \<and> take (length sub) (drop k s) = sub)"

definition occurrences :: "pystr \<Rightarrow> pystr \<Rightarrow> nat list" where
  "occurrences sub s = filter (occurs_at sub s) [0 ..< Suc (length s)]"

subsection \<open>The doc comment of a bean\<close>

text \<open>
  \<^verbatim>\<open>QuarkusBean.extract_doc_comment\<close>:
  \<^verbatim>\<open>
    start = content.find("/**")
    end = content.find("*/", start)
    if start != -1 and end != -1:
        return content[start:end + 2].strip()
    return ""
  \<close>
\<close>

definition extract_doc_comment :: "pystr \<Rightarrow> pystr" where
  "extract_doc_comment content =
     (let start = str_find content (ustr ''/**'') 0;
          stop = str_find content (ustr ''*/'') start
      in if start \<noteq> - 1 \<and> stop \<noteq> - 1
         then strip (slice content start (stop + 2))
         else [])"

subsection \<open>Exceptions\<close>

text \<open>
  The exceptions the modelled calls raise. \<open>OSError\<close> stands for the whole
  \<^verbatim>\<open>OSError\<close> family (\<^verbatim>\<open>IOError\<close> is the same class in Python 3): it carries the
  error code and the text \<^verbatim>\<open>str(e)\<close>. \<open>CalledProcessError\<close> carries the return code
  and the captured output and error streams. \<open>ValueError\<close> is what the interpreter
  raises for a path with a NUL character, before the operating system sees it.
  \<open>UnicodeEncodeError\<close> and \<open>UnicodeDecodeError\<close> are raised when a text cannot be
  encoded, or the bytes of a file cannot be decoded; in Python they are subclasses of
  \<^verbatim>\<open>ValueError\<close>, and none of the three is an \<^verbatim>\<open>OSError\<close>.
\<close>

datatype oserr = ENOENT | ENOTDIR | EISDIR | EEXIST | EACCES | ENAMETOOLONG | ENOSPC

datatype exn =
    OSError oserr pystr
  | ValueError
  | UnicodeEncodeError
  | UnicodeDecodeError
  | CalledProcessError int pystr pystr

subsection \<open>Text files\<close>

text \<open>
  A file holds bytes. A file opened in text mode is encoded and decoded with UTF-8, the
  encoding the interpreter uses on POSIX. \<open>utf8_encode\<close> is \<^verbatim>\<open>s.encode('utf-8')\<close>: a
  surrogate (U+D800..U+DFFF) cannot be encoded, and the result is \<open>None\<close> then.
  \<open>utf8_decode\<close> is \<^verbatim>\<open>b.decode('utf-8')\<close>: \<open>None\<close> for bytes that are not the encoding
  of a text (a stray or missing continuation byte, an overlong form, a surrogate, a
  value above U+10FFFF).
\<close>

type_synonym bytes = "nat list"

definition utf8_char :: "nat \<Rightarrow> bytes option" where
  "utf8_char c =
     (if c < 128 then Some [c]
      else if c < 2048 then Some [192 + c div 64, 128 + c mod 64]
      else if 55296 \<le> c \<and> c \<le> 57343 then None
      else if c < 65536 then
        Some [224 + c div 4096, 128 + c div 64 mod 64, 128 + c mod 64]
      else if c \<le> 1114111 then
        Some [240 + c div 262144, 128 + c div 4096 mod 64, 128 + c div 64 mod 64,
              128 + c mod 64]
      else None)"

fun utf8_encode :: "pystr \<Rightarrow> bytes option" where
  "utf8_encode [] = Some []"
| "utf8_encode (c # cs) =
     (case utf8_char c of
        None \<Rightarrow> None
      | Some bs \<Rightarrow> (case utf8_encode cs of None \<Rightarrow> None | Some r \<Rightarrow> Some (bs @ r)))"

definition continuation :: "nat \<Rightarrow> bool" where
  "continuation b = (128 \<le> b \<and> b < 192)"

fun utf8_decode :: "bytes \<Rightarrow> pystr option" where
  "utf8_decode [] = Some []"
| "utf8_decode (b0 # bs) =
     (if b0 < 128 then map_option ((#) b0) (utf8_decode bs)
      else if 194 \<le> b0 \<and> b0 < 224 then
        (case bs of
           b1 # r \<Rightarrow>
             if continuation b1
             then map_option ((#) ((b0 - 192) * 64 + (b1 - 128))) (utf8_decode r)
             else None
         | _ \<Rightarrow> None)
      else if 224 \<le> b0 \<and> b0 < 240 then
        (case bs of
           b1 # b2 # r \<Rightarrow>
             (let c = (b0 - 224) * 4096 + (b1 - 128) * 64 + (b2 - 128) in
              if continuation b1 \<and> continuation b2 \<and> 2048 \<le> c
                 \<and> \<not> (55296 \<le> c \<and> c \<le> 57343)
              then map_option ((#) c) (utf8_decode r)
              else None)
         | _ \<Rightarrow> None)
      else if 240 \<le> b0 \<and> b0 < 245 then
        (case bs of
           b1 # b2 # b3 # r \<Rightarrow>
             (let c = (b0 - 240) * 262144 + (b1 - 128) * 4096 + (b2 - 128) * 64 + (b3 - 128) in
              if continuation b1 \<and> continuation b2 \<and> continuation b3
                 \<and> 65536 \<le> c \<and> c \<le> 1114111
              then map_option ((#) c) (utf8_decode r)
              else None)
         | _ \<Rightarrow> None)
      else None)"

text \<open>
  A file read in text mode has its line ends translated (\<^verbatim>\<open>newline=None\<close>, the
  default of \<^verbatim>\<open>open\<close>): \<^verbatim>\<open>\r\n\<close> and a \<^verbatim>\<open>\r\<close> alone both become \<^verbatim>\<open>\n\<close>. A file
  written in text mode on POSIX has its text encoded as it is.
\<close>

fun universal_newlines :: "pystr \<Rightarrow> pystr" where
  "universal_newlines [] = []"
| "universal_newlines (c # cs) =
     (if c = 13
      then (case cs of
              [] \<Rightarrow> [10]
            | d # ds \<Rightarrow> if d = 10 then 10 # universal_newlines ds
                        else 10 # universal_newlines cs)
      else c # universal_newlines cs)"

subsection \<open>Paths\<close>

text \<open>
  \<^verbatim>\<open>os.path.join\<close> (POSIX): a component that starts with \<^verbatim>\<open>/\<close> replaces what was
  joined so far; otherwise it is appended, after a \<^verbatim>\<open>/\<close> unless the path so far is
  empty or already ends with one. \<^verbatim>\<open>os.path.basename\<close> is the text after the last
  \<^verbatim>\<open>/\<close>.
\<close>

definition join2 :: "pystr \<Rightarrow> pystr \<Rightarrow> pystr" where
  "join2 path b =
     (if startswith b (ustr ''/'') then b
      else if path = [] \<or> endswith path (ustr ''/'') then path @ b
      else path @ ustr ''/'' @ b)"

definition os_path_join :: "pystr \<Rightarrow> pystr list \<Rightarrow> pystr" where
  "os_path_join a p = foldl join2 a p"

definition os_path_basename :: "pystr \<Rightarrow> pystr" where
  "os_path_basename p = rev (takeWhile (\<lambda>c. c \<noteq> 47) (rev p))"

subsection \<open>The file system\<close>

text \<open>
  The disk is a tree: a node is a regular file with its bytes or a directory, and
  \<open>fs_nodes\<close> maps the absolute path of a node, as the list of its components, to the
  node. The root \<open>[]\<close> is always a directory. \<open>fs_cwd\<close> is the working directory of the
  process, and \<open>fs_strerror\<close> the text the interpreter gives an \<^verbatim>\<open>OSError\<close> for an error
  code and a path (a parameter: the program only copies that text into its answers).
  \<open>fs_name_max\<close> and \<open>fs_path_max\<close> are the limits \<^verbatim>\<open>NAME_MAX\<close> and \<^verbatim>\<open>PATH_MAX\<close> of the
  system: the greatest number of bytes of a name, and the number of bytes a path must
  stay below. \<open>fs_write_fault\<close> says where writing bytes to an open file fails (the
  device is full, for one): for the place of the file and the bytes it gives the error
  and the bytes that the file holds afterwards, or \<open>None\<close> when the write goes through.

  The model has no symbolic links. Access rights are the set \<open>fs_denied\<close> of directories
  in which nothing may be created.
\<close>

datatype node = File bytes | Dir

record fs =
  fs_cwd :: "pystr list"
  fs_nodes :: "pystr list \<Rightarrow> node option"
  fs_denied :: "pystr list \<Rightarrow> bool"
  fs_strerror :: "oserr \<Rightarrow> pystr \<Rightarrow> pystr"
  fs_name_max :: nat
  fs_path_max :: nat
  fs_write_fault :: "pystr list \<Rightarrow> bytes \<Rightarrow> (oserr \<times> bytes) option"

definition node_at :: "(pystr list \<Rightarrow> node option) \<Rightarrow> pystr list \<Rightarrow> node option" where
  "node_at nd p = (if p = [] then Some Dir else nd p)"

definition path_start :: "fs \<Rightarrow> pystr \<Rightarrow> pystr list" where
  "path_start f p = (if startswith p (ustr ''/'') then [] else fs_cwd f)"

text \<open>
  \<open>walk_dirs nd d cs\<close> follows the components \<open>cs\<close> from the directory \<open>d\<close>: an empty
  component and \<^verbatim>\<open>.\<close> stay, \<^verbatim>\<open>..\<close> goes to the parent, and a name must be an existing
  directory.
\<close>

fun walk_dirs :: "(pystr list \<Rightarrow> node option) \<Rightarrow> pystr list \<Rightarrow> pystr list \<Rightarrow> oserr + pystr list" where
  "walk_dirs nd d [] = Inr d"
| "walk_dirs nd d (c # cs) =
     (if c = [] \<or> c = ustr ''.'' then walk_dirs nd d cs
      else if c = ustr ''..'' then walk_dirs nd (butlast d) cs
      else (case node_at nd (d @ [c]) of
              None \<Rightarrow> Inl ENOENT
            | Some (File t) \<Rightarrow> Inl ENOTDIR
            | Some Dir \<Rightarrow> walk_dirs nd (d @ [c]) cs))"

definition os_path_isdir :: "fs \<Rightarrow> pystr \<Rightarrow> bool" where
  "os_path_isdir f p =
     (0 \<notin> set p \<and> p \<noteq> [] \<and>
      (case walk_dirs (fs_nodes f) (path_start f p) (split_on 47 p) of
         Inl e \<Rightarrow> False
       | Inr d \<Rightarrow> True))"

text \<open>
  \<open>file_location f p\<close> is where the path \<open>p\<close> names a file: every component but the
  last is followed as a directory, the last is the file's name in that directory.
\<close>

definition file_location :: "fs \<Rightarrow> pystr \<Rightarrow> oserr + pystr list" where
  "file_location f p =
     (if p = [] then Inl ENOENT
      else (let cs = split_on 47 p; nm = last cs in
        case walk_dirs (fs_nodes f) (path_start f p) (butlast cs) of
          Inl e \<Rightarrow> Inl e
        | Inr d \<Rightarrow>
            if nm = [] \<or> nm = ustr ''.'' \<or> nm = ustr ''..'' then Inl EISDIR
            else Inr (d @ [nm])))"

text \<open>
  What \<^verbatim>\<open>open(p, ...)\<close> does with the path. The interpreter first encodes \<open>p\<close> for
  the operating system (\<^verbatim>\<open>os.fsencode\<close>: UTF-8, where the surrogates U+DC80..U+DCFF
  stand for single bytes and every other surrogate cannot be encoded) and refuses a
  NUL. The system refuses a path of \<open>fs_path_max\<close> bytes or more, and a name of more than
  \<open>fs_name_max\<close> bytes when it comes to that name on its way through the directories
  (\<open>name_too_long\<close> follows the path as \<open>walk_dirs\<close> does). Otherwise the place of the
  file is \<open>file_location\<close>.
\<close>

definition path_encodable :: "pystr \<Rightarrow> bool" where
  "path_encodable p =
     list_all (\<lambda>c. c \<le> 1114111 \<and> (c < 55296 \<or> 57343 < c \<or> (56448 \<le> c \<and> c \<le> 56575))) p"

definition fs_char_bytes :: "nat \<Rightarrow> nat" where
  "fs_char_bytes c =
     (if c < 128 then 1
      else if c < 2048 then 2
      else if 56448 \<le> c \<and> c \<le> 56575 then 1
      else if c < 65536 then 3
      else 4)"

definition fs_bytes :: "pystr \<Rightarrow> nat" where
  "fs_bytes p = sum_list (map fs_char_bytes p)"

fun name_too_long :: "nat \<Rightarrow> (pystr list \<Rightarrow> node option) \<Rightarrow> pystr list \<Rightarrow> pystr list \<Rightarrow> bool" where
  "name_too_long nmax nd d [] = False"
| "name_too_long nmax nd d (c # cs) =
     (if c = [] \<or> c = ustr ''.'' then name_too_long nmax nd d cs
      else if c = ustr ''..'' then name_too_long nmax nd (butlast d) cs
      else if nmax < fs_bytes c then True
      else (case node_at nd (d @ [c]) of
              Some Dir \<Rightarrow> name_too_long nmax nd (d @ [c]) cs
            | other \<Rightarrow> False))"

definition open_path :: "fs \<Rightarrow> pystr \<Rightarrow> exn + pystr list" where
  "open_path f p =
     (if \<not> path_encodable p then Inl UnicodeEncodeError
      else if 0 \<in> set p then Inl ValueError
      else if fs_path_max f \<le> fs_bytes p
              \<or> name_too_long (fs_name_max f) (fs_nodes f) (path_start f p) (split_on 47 p)
        then Inl (OSError ENAMETOOLONG (fs_strerror f ENAMETOOLONG p))
      else (case file_location f p of
              Inl e \<Rightarrow> Inl (OSError e (fs_strerror f e p))
            | Inr loc \<Rightarrow> Inr loc))"

text \<open>
  \<^verbatim>\<open>with open(p, 'w') as file: file.write(data)\<close>, in its steps. \<^verbatim>\<open>open\<close> raises and
  leaves the disk as it is, or it creates the file or cuts an existing file down to no
  bytes. \<^verbatim>\<open>file.write\<close> then encodes \<open>data\<close>: when that fails, the exception is a
  \<open>UnicodeEncodeError\<close> and the file stays empty. The bytes are written when the file is
  flushed and closed: when that fails, the exception is an \<open>OSError\<close> and the file holds
  what \<open>fs_write_fault\<close> says; otherwise the file holds the encoding of \<open>data\<close>. The
  result is the disk after the call, together with the exception when one is raised.
\<close>

definition os_open_w :: "fs \<Rightarrow> pystr \<Rightarrow> pystr \<Rightarrow> (exn \<times> fs) + fs" where
  "os_open_w f p data =
     (case open_path f p of
        Inl e \<Rightarrow> Inl (e, f)
      | Inr loc \<Rightarrow>
          (case node_at (fs_nodes f) loc of
             Some Dir \<Rightarrow> Inl (OSError EISDIR (fs_strerror f EISDIR p), f)
           | found \<Rightarrow>
               if found = None \<and> fs_denied f (butlast loc)
               then Inl (OSError EACCES (fs_strerror f EACCES p), f)
               else (case utf8_encode data of
                       None \<Rightarrow>
                         Inl (UnicodeEncodeError, f\<lparr>fs_nodes := (fs_nodes f)(loc \<mapsto> File [])\<rparr>)
                     | Some b \<Rightarrow>
                         (case fs_write_fault f loc b of
                            Some (e, left) \<Rightarrow>
                              Inl (OSError e (fs_strerror f e p),
                                   f\<lparr>fs_nodes := (fs_nodes f)(loc \<mapsto> File left)\<rparr>)
                          | None \<Rightarrow> Inr (f\<lparr>fs_nodes := (fs_nodes f)(loc \<mapsto> File b)\<rparr>)))))"

text \<open>
  \<^verbatim>\<open>with open(p, 'r') as file: file.read()\<close>: the bytes of the file are decoded, and
  the line ends of the text are translated.
\<close>

definition os_open_r :: "fs \<Rightarrow> pystr \<Rightarrow> exn + pystr" where
  "os_open_r f p =
     (case open_path f p of
        Inl e \<Rightarrow> Inl e
      | Inr loc \<Rightarrow>
          (case node_at (fs_nodes f) loc of
             None \<Rightarrow> Inl (OSError ENOENT (fs_strerror f ENOENT p))
           | Some Dir \<Rightarrow> Inl (OSError EISDIR (fs_strerror f EISDIR p))
           | Some (File b) \<Rightarrow>
               (case utf8_decode b of
                  None \<Rightarrow> Inl UnicodeDecodeError
                | Some t \<Rightarrow> Inr (universal_newlines t))))"

text \<open>
  \<^verbatim>\<open>os.makedirs(p, exist_ok=...)\<close> creates the directory \<open>p\<close> and every missing
  directory on the way. \<open>mkdirs\<close> goes through the components: an existing directory
  is entered, a missing one is created and entered, a regular file in the way is an
  error. With \<^verbatim>\<open>exist_ok=False\<close> the call fails when the directory is already there.
\<close>

fun mkdirs :: "(pystr list \<Rightarrow> bool) \<Rightarrow> (pystr list \<Rightarrow> node option) \<Rightarrow> pystr list \<Rightarrow> pystr list
    \<Rightarrow> oserr + (pystr list \<Rightarrow> node option)" where
  "mkdirs deny nd d [] = Inr nd"
| "mkdirs deny nd d (c # cs) =
     (if c = [] \<or> c = ustr ''.'' then mkdirs deny nd d cs
      else if c = ustr ''..'' then mkdirs deny nd (butlast d) cs
      else (case node_at nd (d @ [c]) of
              Some Dir \<Rightarrow> mkdirs deny nd (d @ [c]) cs
            | Some (File t) \<Rightarrow> Inl (if cs = [] then EEXIST else ENOTDIR)
            | None \<Rightarrow>
                if deny d then Inl EACCES
                else mkdirs deny (nd((d @ [c]) \<mapsto> Dir)) (d @ [c]) cs))"

definition os_makedirs :: "fs \<Rightarrow> pystr \<Rightarrow> bool \<Rightarrow> exn + fs" where
  "os_makedirs f p exist_ok =
     (if 0 \<in> set p then Inl ValueError
      else if p = [] then Inl (OSError ENOENT (fs_strerror f ENOENT p))
      else if \<not> exist_ok \<and> os_path_isdir f p
        then Inl (OSError EEXIST (fs_strerror f EEXIST p))
      else (case mkdirs (fs_denied f) (fs_nodes f) (path_start f p) (split_on 47 p) of
              Inl e \<Rightarrow> Inl (OSError e (fs_strerror f e p))
            | Inr nd \<Rightarrow> Inr (f\<lparr>fs_nodes := nd\<rparr>)))"

subsection \<open>Child processes\<close>

text \<open>
  \<^verbatim>\<open>subprocess.run(args, cwd=..., capture_output=True, text=True, check=...)\<close>.
  What the operating system does with the command is a parameter \<open>launch\<close>: for the
  arguments and the working directory it either raises (the program cannot be started:
  an \<^verbatim>\<open>OSError\<close>; an argument has a NUL: a \<^verbatim>\<open>ValueError\<close>) or the process runs to its
  end and leaves its return code and its captured output. With \<^verbatim>\<open>check=True\<close> a
  return code other than zero raises \<^verbatim>\<open>CalledProcessError\<close>, whose \<^verbatim>\<open>output\<close> is the
  captured standard output.
\<close>

record CompletedProcess =
  returncode :: int
  stdout :: pystr
  stderr :: pystr

type_synonym launcher = "pystr list \<Rightarrow> pystr \<Rightarrow> exn + CompletedProcess"

definition subprocess_run :: "launcher \<Rightarrow> pystr list \<Rightarrow> pystr \<Rightarrow> bool \<Rightarrow> exn + CompletedProcess" where
  "subprocess_run launch args cwd check =
     (case launch args cwd of
        Inl e \<Rightarrow> Inl e
      | Inr r \<Rightarrow>
          if check \<and> returncode r \<noteq> 0
          then Inl (CalledProcessError (returncode r) (stdout r) (stderr r))
          else Inr r)"

subsection \<open>The tools of \<^verbatim>\<open>EncaptWorkforce\<close>\<close>

text \<open>
  \<^verbatim>\<open>PROJECT_ROOT = "./encapt-project"\<close> and
  \<^verbatim>\<open>BEANS_DIR = os.path.join(PROJECT_ROOT, "src", "main", "kotlin", "org", "camelai", "beans")\<close>.
\<close>

definition PROJECT_ROOT :: pystr where
  "PROJECT_ROOT = ustr ''./encapt-project''"

definition BEANS_DIR :: pystr where
  "BEANS_DIR = os_path_join PROJECT_ROOT
     [ustr ''src'', ustr ''main'', ustr ''kotlin'', ustr ''org'', ustr ''camelai'', ustr ''beans'']"

text \<open>
  A tool takes the state of the disk and returns the new state with its answer, or an
  exception that it does not catch (for \<open>write_file\<close> together with the disk that the
  failed call leaves).

  \<^verbatim>\<open>write_file\<close>:
  \<^verbatim>\<open>
    if not file_name.endswith('.kt'):
        return "Error: Only .kt files are allowed."
    try:
        file_path = os.path.join(self.BEANS_DIR, file_name)
        with open(file_path, 'w') as file:
            file.write(content)
        return f"Successfully wrote content to {file_name}"
    except IOError as e:
        return f"Error writing to file: {str(e)}"
  \<close>
\<close>

definition write_file :: "fs \<Rightarrow> pystr \<Rightarrow> pystr \<Rightarrow> (exn \<times> fs) + (fs \<times> pystr)" where
  "write_file f file_name content =
     (if \<not> endswith file_name (ustr ''.kt'')
      then Inr (f, ustr ''Error: Only .kt files are allowed.'')
      else (let file_path = os_path_join BEANS_DIR [file_name] in
        case os_open_w f file_path content of
          Inr f' \<Rightarrow> Inr (f', ustr ''Successfully wrote content to '' @ file_name)
        | Inl (OSError e msg, f') \<Rightarrow> Inr (f', ustr ''Error writing to file: '' @ msg)
        | Inl (e, f') \<Rightarrow> Inl (e, f')))"

text \<open>
  \<^verbatim>\<open>create_directory\<close>:
  \<^verbatim>\<open>
    try:
        dir_path = os.path.join(self.BEANS_DIR, dir_name)
        os.makedirs(dir_path, exist_ok=True)
        return f"Successfully created directory {dir_name}"
    except OSError as e:
        return f"Error creating directory: {str(e)}"
  \<close>
\<close>

definition create_directory :: "fs \<Rightarrow> pystr \<Rightarrow> exn + (fs \<times> pystr)" where
  "create_directory f dir_name =
     (let dir_path = os_path_join BEANS_DIR [dir_name] in
      case os_makedirs f dir_path True of
        Inr f' \<Rightarrow> Inr (f', ustr ''Successfully created directory '' @ dir_name)
      | Inl (OSError e msg) \<Rightarrow> Inr (f, ustr ''Error creating directory: '' @ msg)
      | Inl e \<Rightarrow> Inl e)"

text \<open>
  \<^verbatim>\<open>run_all_bean_tests\<close>:
  \<^verbatim>\<open>
    try:
        result = subprocess.run(
            ['./gradlew', 'test', '--tests=org.camelai.beans.*'],
            cwd=self.PROJECT_ROOT, capture_output=True, text=True, check=True)
        return result.stdout
    except subprocess.CalledProcessError as e:
        return f"Error running bean tests: {e.output}"
  \<close>
  and \<^verbatim>\<open>run_specific_bean_test\<close>, the same with the filter
  \<^verbatim>\<open>f'--tests=org.camelai.beans.{bean_name}Test'\<close> and the answer
  \<^verbatim>\<open>f"Error running test for {bean_name}: {e.output}"\<close>. Only
  \<^verbatim>\<open>CalledProcessError\<close> is caught.
\<close>

definition run_all_bean_tests :: "launcher \<Rightarrow> exn + pystr" where
  "run_all_bean_tests launch =
     (case subprocess_run launch
             [ustr ''./gradlew'', ustr ''test'', ustr ''--tests=org.camelai.beans.*'']
             PROJECT_ROOT True of
        Inr result \<Rightarrow> Inr (stdout result)
      | Inl (CalledProcessError rc out err) \<Rightarrow> Inr (ustr ''Error running bean tests: '' @ out)
      | Inl e \<Rightarrow> Inl e)"

definition run_specific_bean_test :: "launcher \<Rightarrow> pystr \<Rightarrow> exn + pystr" where
  "run_specific_bean_test launch bean_name =
     (case subprocess_run launch
             [ustr ''./gradlew'', ustr ''test'',
              ustr ''--tests=org.camelai.beans.'' @ bean_name @ ustr ''Test'']
             PROJECT_ROOT True of
        Inr result \<Rightarrow> Inr (stdout result)
      | Inl (CalledProcessError rc out err) \<Rightarrow>
          Inr (ustr ''Error running test for '' @ bean_name @ ustr '': '' @ out)
      | Inl e \<Rightarrow> Inl e)"

subsection \<open>Beans\<close>

text \<open>
  \<^verbatim>\<open>QuarkusBean\<close>: the path of a Kotlin file, the bean's name, the file's text and its
  doc comment.
  \<^verbatim>\<open>
    self.file_path = file_path
    self.name = os.path.basename(file_path).split('.')[0]
    self.content, self.doc_comment = self.read_file()
  \<close>
  Reading the file can raise; the exception leaves the constructor.
\<close>

record QuarkusBean =
  file_path :: pystr
  name :: pystr
  content :: pystr
  doc_comment :: pystr

definition read_file :: "fs \<Rightarrow> pystr \<Rightarrow> exn + (pystr \<times> pystr)" where
  "read_file f path =
     (case os_open_r f path of
        Inl e \<Rightarrow> Inl e
      | Inr data \<Rightarrow> Inr (data, extract_doc_comment data))"

definition new_QuarkusBean :: "fs \<Rightarrow> pystr \<Rightarrow> exn + QuarkusBean" where
  "new_QuarkusBean f path =
     (case read_file f path of
        Inl e \<Rightarrow> Inl e
      | Inr (data, doc) \<Rightarrow>
          Inr \<lparr>file_path = path,
               name = split_first 46 (os_path_basename path),
               content = data,
               doc_comment = doc\<rparr>)"

text \<open>
  \<^verbatim>\<open>_load_beans\<close>:
  \<^verbatim>\<open>
    beans = []
    for root, dirs, files in os.walk(self.BEANS_DIR):
        for file in files:
            if file.endswith(".kt"):
                file_path = os.path.join(root, file)
                beans.append(QuarkusBean(file_path))
    return beans
  \<close>
  What \<^verbatim>\<open>os.walk(self.BEANS_DIR)\<close> yields is the parameter \<open>walked\<close>: a list of
  triples of a directory, the names of its subdirectories and the names of its files.
  \<open>load_files\<close> is the inner loop, \<open>load_dirs\<close> the outer one; both append to \<open>beans\<close>.
\<close>

fun load_files :: "fs \<Rightarrow> pystr \<Rightarrow> pystr list \<Rightarrow> QuarkusBean list \<Rightarrow> exn + QuarkusBean list" where
  "load_files f root [] beans = Inr beans"
| "load_files f root (file # files) beans =
     (if endswith file (ustr ''.kt'')
      then (case new_QuarkusBean f (os_path_join root [file]) of
              Inl e \<Rightarrow> Inl e
            | Inr bean \<Rightarrow> load_files f root files (beans @ [bean]))
      else load_files f root files beans)"

fun load_dirs :: "fs \<Rightarrow> (pystr \<times> pystr list \<times> pystr list) list \<Rightarrow> QuarkusBean list
    \<Rightarrow> exn + QuarkusBean list" where
  "load_dirs f [] beans = Inr beans"
| "load_dirs f ((root, dirs, files) # rest) beans =
     (case load_files f root files beans of
        Inl e \<Rightarrow> Inl e
      | Inr beans' \<Rightarrow> load_dirs f rest beans')"

definition load_beans :: "fs \<Rightarrow> (pystr \<times> pystr list \<times> pystr list) list \<Rightarrow> exn + QuarkusBean list" where
  "load_beans f walked = load_dirs f walked []"

subsection \<open>Agents and the workforce\<close>

text \<open>
  A system message has a role name and a text; a chat agent has its system message, a
  model and the list of tools. The workforce is the list of workers registered with
  \<^verbatim>\<open>add_single_agent_worker(description, worker)\<close>, in the order of the calls. The model
  (made by \<^verbatim>\<open>ModelFactory.create\<close>) is a parameter of type \<open>'m\<close>.
\<close>

datatype tool =
    Tool_write_file
  | Tool_create_directory
  | Tool_run_all_bean_tests
  | Tool_run_specific_bean_test
  | Tool_send_message

definition get_tools :: "tool list" where
  "get_tools =
     [Tool_write_file, Tool_create_directory, Tool_run_all_bean_tests,
      Tool_run_specific_bean_test, Tool_send_message]"

record BaseMessage =
  role_name :: pystr
  msg_content :: pystr

record 'm ChatAgent =
  system_message :: BaseMessage
  agent_model :: 'm
  agent_tools :: "tool list"

record 'm EncaptWorkforce =
  workforce :: "(pystr \<times> 'm ChatAgent) list"
  beans :: "QuarkusBean list"

definition add_single_agent_worker ::
    "pystr \<Rightarrow> 'm ChatAgent \<Rightarrow> 'm EncaptWorkforce \<Rightarrow> 'm EncaptWorkforce" where
  "add_single_agent_worker description worker self =
     self\<lparr>workforce := workforce self @ [(description, worker)]\<rparr>"

text \<open>The text of the manager's system message.\<close>

definition manager_content :: pystr where
  "manager_content =
     ustr ''You are responsible for managing the Quarkus codebase.\<newline>''
     @ ustr ''            Your responsibilities include:\<newline>''
     @ ustr ''            1. Coordinating changes across multiple beans\<newline>''
     @ ustr ''            2. Ensuring overall project consistency\<newline>''
     @ ustr ''            3. Delegating tasks to appropriate bean agents\<newline>''
     @ ustr ''\<newline>''
     @ ustr ''            Use the provided tools to write files, run tests, get ''
     @ ustr ''test summaries, and send messages to other agents when needed.\<newline>''
     @ ustr ''\<newline>''
     @ ustr ''            When creating a new agent or bean, only write a kotlin ''
     @ ustr ''class with appropriate Quarkus annotations and a doc comment that ''
     @ ustr ''outlines the responsibilities of the bean. The agent will handle the ''
     @ ustr ''rest.\<newline>''
     @ ustr ''\<newline>''
     @ ustr ''            Always wrap your final response in <result> tags.\<newline>''
     @ ustr ''            ''"

text \<open>
  The fixed parts of a bean agent's system message, in the order of the f-string; the
  bean's name, its doc comment and the list of the other beans stand between them.
\<close>

definition worker_intro :: pystr where
  "worker_intro =
     ustr ''You are responsible for the ''"

definition worker_responsibilities :: pystr where
  "worker_responsibilities =
     ustr '' Quarkus bean.\<newline>''
     @ ustr ''            Your responsibilities include:\<newline>''
     @ ustr ''            ''"

definition worker_others :: pystr where
  "worker_others =
     ustr ''\<newline>''
     @ ustr ''\<newline>''
     @ ustr ''            Here are the other beans and their responsibilities, ''
     @ ustr ''derived from the classes doccomment:\<newline>''
     @ ustr ''            ''"

definition worker_rules :: pystr where
  "worker_rules =
     ustr ''. Inject them using quarkus @Inject annotation as appropriate and ''
     @ ustr ''needed.\<newline>''
     @ ustr ''\<newline>''
     @ ustr ''            Fully implement the responsibilities of the bean.\<newline>''
     @ ustr ''            Use the provided tools to read and modify your bean's ''
     @ ustr ''content, run tests, get test summaries, and send messages to other ''
     @ ustr ''agents.\<newline>''
     @ ustr ''            When you notice code errors or a failed test, edit the ''
     @ ustr ''code and try running again, until the tests pass.\<newline>''
     @ ustr ''            Coordinate with the Manager Agent for changes that affect ''
     @ ustr ''multiple beans. When you make changes, ensure they are tested and ''
     @ ustr ''working correctly. Edit and test until you are happy.\<newline>''
     @ ustr ''\<newline>''
     @ ustr ''            Message another agent with your message tool if you need ''
     @ ustr ''to know more details about its service, ask for help, or request a ''
     @ ustr ''change. You should also work with them to meet the shared ''
     @ ustr ''responsibilities of the beans.\<newline>''
     @ ustr ''\<newline>''
     @ ustr ''            Always wrap your final response in <result> tags.\<newline>''
     @ ustr ''            ''"

text \<open>
  \<^verbatim>\<open>_create_bean_agent\<close>. The list of the other beans is
  \<^verbatim>\<open>', '.join([f'{b.name}: {b.doc_comment}' for b in self.beans if b.name != bean.name])\<close>;
  \<open>other_beans\<close> is the list that is joined.
\<close>

definition other_beans :: "QuarkusBean list \<Rightarrow> QuarkusBean \<Rightarrow> pystr list" where
  "other_beans bs bean =
     map (\<lambda>b. name b @ ustr '': '' @ doc_comment b) (filter (\<lambda>b. name b \<noteq> name bean) bs)"

definition bean_agent_content :: "QuarkusBean list \<Rightarrow> QuarkusBean \<Rightarrow> pystr" where
  "bean_agent_content bs bean =
     worker_intro @ name bean @ worker_responsibilities @ doc_comment bean @ worker_others
     @ join (ustr '', '') (other_beans bs bean) @ worker_rules"

definition create_bean_agent ::
    "'m EncaptWorkforce \<Rightarrow> QuarkusBean \<Rightarrow> 'm \<Rightarrow> tool list \<Rightarrow> 'm EncaptWorkforce" where
  "create_bean_agent self bean model function_list =
     (let sysmsg = \<lparr>role_name = name bean @ ustr '' Agent'',
                     msg_content = bean_agent_content (beans self) bean\<rparr>
      in add_single_agent_worker (name bean)
           \<lparr>system_message = sysmsg, agent_model = model, agent_tools = function_list\<rparr> self)"

text \<open>
  \<^verbatim>\<open>_setup_workforce\<close>: the manager is registered first, then one agent for each bean of
  \<^verbatim>\<open>self.beans\<close>, in order.
\<close>

definition setup_workforce :: "'m EncaptWorkforce \<Rightarrow> 'm \<Rightarrow> 'm EncaptWorkforce" where
  "setup_workforce self model =
     (let function_list = get_tools;
          manager_sysmsg = \<lparr>role_name = ustr ''Manager Agent'', msg_content = manager_content\<rparr>;
          self1 = add_single_agent_worker (ustr ''Manager'')
                    \<lparr>system_message = manager_sysmsg, agent_model = model,
                     agent_tools = function_list\<rparr> self
      in foldl (\<lambda>s bean. create_bean_agent s bean model function_list) self1 (beans self1))"

text \<open>
  \<^verbatim>\<open>EncaptWorkforce.__init__\<close>: a new workforce without workers, the beans loaded from
  the disk, then the set-up. An exception while loading leaves the constructor.
\<close>

definition new_EncaptWorkforce ::
    "fs \<Rightarrow> (pystr \<times> pystr list \<times> pystr list) list \<Rightarrow> 'm \<Rightarrow> exn + 'm EncaptWorkforce" where
  "new_EncaptWorkforce f walked model =
     (case load_beans f walked of
        Inl e \<Rightarrow> Inl e
      | Inr bs \<Rightarrow> Inr (setup_workforce \<lparr>workforce = [], beans = bs\<rparr> model))"

text \<open>
  The worker agents are the registered workers after the manager, which is registered
  first.
\<close>

definition worker_agents :: "'m EncaptWorkforce \<Rightarrow> (pystr \<times> 'm ChatAgent) list" where
  "worker_agents self = tl (workforce self)"

subsection \<open>A disk for the examples\<close>

text \<open>
  \<open>example_fs\<close> is a disk on which the process runs in \<^verbatim>\<open>/work\<close> and the beans
  directory \<^verbatim>\<open>/work/encapt-project/src/main/kotlin/org/camelai/beans\<close> exists and is
  empty. \<open>example_fs2\<close> has two beans with the same file name in two subdirectories and
  a file \<^verbatim>\<open>Bar.KT\<close>; \<open>example_walked2\<close> is what \<^verbatim>\<open>os.walk\<close> yields there, and
  \<open>example_beans2\<close> are the two beans. \<open>example_beans2'\<close> are two beans with the same names
  and doc comments, from other files. \<open>example_fs3\<close> has a file \<^verbatim>\<open>A.b.kt\<close> and a file
  \<^verbatim>\<open>Crlf.kt\<close> whose lines end in \<^verbatim>\<open>\r\n\<close>. Names have at most 255 bytes and paths fewer
  than 4096, and no write fails.
\<close>

definition example_beans_dir :: "pystr list" where
  "example_beans_dir =
     [ustr ''work'', ustr ''encapt-project'', ustr ''src'', ustr ''main'', ustr ''kotlin'',
      ustr ''org'', ustr ''camelai'', ustr ''beans'']"

definition example_fs :: fs where
  "example_fs =
     \<lparr>fs_cwd = [ustr ''work''],
      fs_nodes = (\<lambda>p. if p \<noteq> [] \<and> take (length p) example_beans_dir = p
                       then Some Dir else None),
      fs_denied = (\<lambda>p. False),
      fs_strerror = (\<lambda>e p. ustr ''[Errno] '' @ p),
      fs_name_max = 255,
      fs_path_max = 4096,
      fs_write_fault = (\<lambda>loc b. None)\<rparr>"

text \<open>
  \<open>example_fs_full\<close> is \<open>example_fs\<close> on a device that is full: every write fails after
  the first byte.
\<close>

definition example_fs_full :: fs where
  "example_fs_full = example_fs\<lparr>fs_write_fault := (\<lambda>loc b. Some (ENOSPC, take 1 b))\<rparr>"

definition example_fs2 :: fs where
  "example_fs2 =
     example_fs\<lparr>fs_nodes := (fs_nodes example_fs)
       (example_beans_dir @ [ustr ''a''] \<mapsto> Dir,
        example_beans_dir @ [ustr ''b''] \<mapsto> Dir,
        example_beans_dir @ [ustr ''a'', ustr ''Foo.kt''] \<mapsto> File (ustr ''/** first */ class Foo''),
        example_beans_dir @ [ustr ''b'', ustr ''Foo.kt''] \<mapsto> File (ustr ''/** second */ class Foo''),
        example_beans_dir @ [ustr ''b'', ustr ''Bar.KT''] \<mapsto> File (ustr ''class Bar''))\<rparr>"

definition example_walked2 :: "(pystr \<times> pystr list \<times> pystr list) list" where
  "example_walked2 =
     [(BEANS_DIR, [ustr ''a'', ustr ''b''], []),
      (os_path_join BEANS_DIR [ustr ''a''], [], [ustr ''Foo.kt'']),
      (os_path_join BEANS_DIR [ustr ''b''], [], [ustr ''Bar.KT'', ustr ''Foo.kt''])]"

definition example_beans2 :: "QuarkusBean list" where
  "example_beans2 =
     [\<lparr>file_path = ustr ''./encapt-project/src/main/kotlin/org/camelai/beans/a/Foo.kt'',
       name = ustr ''Foo'',
       content = ustr ''/** first */ class Foo'',
       doc_comment = ustr ''/** first */''\<rparr>,
      \<lparr>file_path = ustr ''./encapt-project/src/main/kotlin/org/camelai/beans/b/Foo.kt'',
       name = ustr ''Foo'',
       content = ustr ''/** second */ class Foo'',
       doc_comment = ustr ''/** second */''\<rparr>]"

definition example_beans2' :: "QuarkusBean list" where
  "example_beans2' =
     [\<lparr>file_path = ustr ''x/Foo.kt'',
       name = ustr ''Foo'',
       content = ustr ''/** first */ object Foo'',
       doc_comment = ustr ''/** first */''\<rparr>,
      \<lparr>file_path = ustr ''y/Foo.kt'',
       name = ustr ''Foo'',
       content = ustr ''// none /** second */'',
       doc_comment = ustr ''/** second */''\<rparr>]"

definition example_beans3 :: "QuarkusBean list" where
  "example_beans3 =
     [\<lparr>file_path = ustr ''UserService.kt'',
       name = ustr ''UserService'',
       content = ustr ''/** manages users */'',
       doc_comment = ustr ''/** manages users */''\<rparr>,
      \<lparr>file_path = ustr ''OrderHistoryService.kt'',
       name = ustr ''OrderHistoryService'',
       content = ustr ''/** manages orders */'',
       doc_comment = ustr ''/** manages orders */''\<rparr>]"

definition example_fs3 :: fs where
  "example_fs3 =
     example_fs\<lparr>fs_nodes := (fs_nodes example_fs)
       (example_beans_dir @ [ustr ''A.b.kt''] \<mapsto> File (ustr ''class A''),
        example_beans_dir @ [ustr ''Crlf.kt''] \<mapsto>
          File (ustr ''/** doc */'' @ [13, 10] @ ustr ''class Crlf'' @ [13, 10]))\<rparr>"

text \<open>
  Three answers of the operating system to the test command: the tests pass, a test
  fails, and \<^verbatim>\<open>./gradlew\<close> is not there.
\<close>

definition example_launch_passed :: launcher where
  "example_launch_passed args cwd =
     Inr \<lparr>returncode = 0, stdout = ustr ''BUILD SUCCESSFUL'', stderr = []\<rparr>"

definition example_launch_failed :: launcher where
  "example_launch_failed args cwd =
     Inr \<lparr>returncode = 1, stdout = ustr ''FooTest FAILED'', stderr = ustr ''BUILD FAILED''\<rparr>"

definition example_launch_missing :: launcher where
  "example_launch_missing args cwd =
     Inl (OSError ENOENT (ustr ''[Errno 2] No such file or directory: ./gradlew''))"

section \<open>Properties\<close>

subsection \<open>Searching a string\<close>

lemma startswith_occurs: "startswith s sub = occurs_at sub s 0"
  unfolding startswith_def occurs_at_def
  by (metis drop0 add_0 take_all nat_le_linear)

lemma occurs_at_Cons: "occurs_at sub (x # xs) (Suc k) = occurs_at sub xs k"
  by (simp add: occurs_at_def)

lemma occurs_at_bound: "occurs_at sub s k \<Longrightarrow> k \<le> length s"
  by (simp add: occurs_at_def)

lemma find_at_found:
  "occurs_at sub s k \<Longrightarrow> (\<forall>j<k. \<not> occurs_at sub s j) \<Longrightarrow> find_at sub s i = int (i + k)"
proof (induction s arbitrary: i k)
  case Nil
  then show ?case by (simp add: occurs_at_def)
next
  case (Cons x xs)
  show ?case
  proof (cases "occurs_at sub (x # xs) 0")
    case True
    with Cons.prems have "k = 0" by (cases k) auto
    with True show ?thesis by (simp add: startswith_occurs)
  next
    case False
    with Cons.prems obtain k' where k: "k = Suc k'" by (cases k) auto
    from Cons.prems k have occ: "occurs_at sub xs k'" by (simp add: occurs_at_Cons)
    have none: "\<forall>j<k'. \<not> occurs_at sub xs j"
    proof (intro allI impI)
      fix j assume "j < k'"
      then have "Suc j < k" using k by simp
      with Cons.prems have "\<not> occurs_at sub (x # xs) (Suc j)" by blast
      then show "\<not> occurs_at sub xs j" by (simp add: occurs_at_Cons)
    qed
    from Cons.IH [OF occ none] False k show ?thesis by (simp add: startswith_occurs)
  qed
qed

lemma find_at_none:
  "(\<forall>k. \<not> occurs_at sub s k) \<Longrightarrow> find_at sub s i = - 1"
proof (induction s arbitrary: i)
  case Nil
  then have "\<not> occurs_at sub [] 0" by blast
  then show ?case by (simp add: occurs_at_def)
next
  case (Cons x xs)
  have "\<forall>k. \<not> occurs_at sub xs k"
  proof
    fix k from Cons.prems have "\<not> occurs_at sub (x # xs) (Suc k)" by blast
    then show "\<not> occurs_at sub xs k" by (simp add: occurs_at_Cons)
  qed
  from Cons.IH [OF this] Cons.prems show ?case by (simp add: startswith_occurs)
qed

lemma occurs_at_drop: "st \<le> length s \<Longrightarrow> occurs_at sub (drop st s) j = occurs_at sub s (st + j)"
  by (auto simp: occurs_at_def add.commute)

lemma set_occurrences: "set (occurrences sub s) = {k. occurs_at sub s k}"
proof -
  have "occurs_at sub s k \<Longrightarrow> k < Suc (length s)" for k
    using occurs_at_bound [of sub s k] by simp
  then show ?thesis unfolding occurrences_def by (auto simp del: upt_Suc)
qed

lemma filter_upt_Nil: "filter P [0 ..< n] = [] \<longleftrightarrow> (\<forall>k<n. \<not> P k)"
  by (auto simp: filter_empty_conv)

lemma filter_upt_Cons:
  assumes "filter P [m ..< n] = k # rest"
  shows "P k \<and> m \<le> k \<and> k < n \<and> (\<forall>j. m \<le> j \<and> j < k \<longrightarrow> \<not> P j)"
proof -
  from assms obtain us vs where xs: "[m ..< n] = us @ k # vs"
    and nu: "\<forall>u\<in>set us. \<not> P u" and pk: "P k"
    by (auto simp: filter_eq_Cons_iff)
  have "sorted_wrt (<) [m ..< n]" by simp
  then have srt: "sorted_wrt (<) (us @ k # vs)" by (simp only: xs)
  then have gt: "\<forall>v\<in>set vs. k < v" by (simp add: sorted_wrt_append)
  have "k \<in> set [m ..< n]" by (simp only: xs) simp
  then have bounds: "m \<le> k" "k < n" by simp_all
  have "\<not> P j" if "m \<le> j" "j < k" for j
  proof -
    from that bounds have "j \<in> set [m ..< n]" by simp
    then have "j \<in> set us \<or> j = k \<or> j \<in> set vs" by (simp only: xs) auto
    with gt that have "j \<in> set us" by auto
    with nu show ?thesis by blast
  qed
  with pk bounds show ?thesis by blast
qed

lemma occurrences_from_Nil:
  "filter ((\<le>) st) (occurrences sub s) = [] \<longleftrightarrow> (\<forall>k. st \<le> k \<longrightarrow> \<not> occurs_at sub s k)"
  using set_occurrences [of sub s] by (auto simp: filter_empty_conv)

lemma occurrences_from_Cons:
  assumes "filter ((\<le>) st) (occurrences sub s) = k # rest"
  shows "occurs_at sub s k \<and> st \<le> k \<and> (\<forall>j. st \<le> j \<and> j < k \<longrightarrow> \<not> occurs_at sub s j)"
proof -
  have "filter ((\<le>) st) (occurrences sub s)
        = filter (\<lambda>j. st \<le> j \<and> occurs_at sub s j) [0 ..< Suc (length s)]"
    by (simp add: occurrences_def conj_commute)
  with assms have "filter (\<lambda>j. st \<le> j \<and> occurs_at sub s j) [0 ..< Suc (length s)] = k # rest"
    by simp
  from filter_upt_Cons [OF this] show ?thesis by auto
qed

lemma str_find_spec:
  "str_find s sub (int st) =
     (case filter ((\<le>) st) (occurrences sub s) of [] \<Rightarrow> - 1 | k # _ \<Rightarrow> int k)"
proof (cases "st \<le> length s")
  case False
  then have "\<forall>k. st \<le> k \<longrightarrow> \<not> occurs_at sub s k"
    by (auto dest: occurs_at_bound)
  then have "filter ((\<le>) st) (occurrences sub s) = []"
    by (simp add: occurrences_from_Nil)
  with False show ?thesis by (simp add: str_find_def)
next
  case le: True
  then have sf: "str_find s sub (int st) = find_at sub (drop st s) st"
    by (simp add: str_find_def)
  show ?thesis
  proof (cases "filter ((\<le>) st) (occurrences sub s)")
    case Nil
    then have "\<forall>k. st \<le> k \<longrightarrow> \<not> occurs_at sub s k" by (simp add: occurrences_from_Nil)
    then have "\<forall>j. \<not> occurs_at sub (drop st s) j" using le by (simp add: occurs_at_drop)
    from find_at_none [OF this] Nil sf show ?thesis by simp
  next
    case (Cons k rest)
    from occurrences_from_Cons [OF Cons]
    have k: "occurs_at sub s k" "st \<le> k" "\<forall>j. st \<le> j \<and> j < k \<longrightarrow> \<not> occurs_at sub s j"
      by auto
    from k le have a: "occurs_at sub (drop st s) (k - st)" by (simp add: occurs_at_drop)
    have b: "\<forall>j<k - st. \<not> occurs_at sub (drop st s) j"
      using k le by (simp add: occurs_at_drop)
    from find_at_found [OF a b] k Cons sf show ?thesis by simp
  qed
qed

subsection \<open>Doc-comment extraction\<close>

lemma occurs_at_nth: "occurs_at sub s k \<Longrightarrow> j < length sub \<Longrightarrow> s ! (k + j) = sub ! j"
proof -
  assume a: "occurs_at sub s k" and j: "j < length sub"
  from a have eq: "take (length sub) (drop k s) = sub" and len: "k + length sub \<le> length s"
    by (simp_all add: occurs_at_def)
  from len have "s ! (k + j) = drop k s ! j" by simp
  also from j have "\<dots> = take (length sub) (drop k s) ! j" by simp
  also have "\<dots> = sub ! j" by (simp only: eq)
  finally show ?thesis .
qed

lemma length_open [simp]: "length (ustr ''/**'') = 3"
  by (simp add: ustr_def)

lemma length_close [simp]: "length (ustr ''*/'') = 2"
  by (simp add: ustr_def)

lemma strip_id: "s \<noteq> [] \<Longrightarrow> \<not> isspace (hd s) \<Longrightarrow> \<not> isspace (last s) \<Longrightarrow> strip s = s"
proof -
  assume ne: "s \<noteq> []" and h: "\<not> isspace (hd s)" and l: "\<not> isspace (last s)"
  from ne h have 1: "dropWhile isspace s = s" by (cases s) auto
  from ne l have 2: "dropWhile isspace (rev s) = rev s" by (cases "rev s") (auto simp: last_rev hd_rev dest: arg_cong [where f = hd])
  show ?thesis by (simp add: strip_def 1 2)
qed

lemma slice_nat: "i \<le> j \<Longrightarrow> j \<le> length s \<Longrightarrow> slice s (int i) (int j) = take (j - i) (drop i s)"
  by (simp add: slice_def Let_def min_def nat_diff_distrib')

lemma open_close_gap:
  assumes o: "occurs_at (ustr ''/**'') c i" and cl: "occurs_at (ustr ''*/'') c k" and ik: "i \<le> k"
  shows "i + 2 \<le> k"
proof -
  have ci: "c ! i = 47" using occurs_at_nth [OF o, of 0] by (simp add: ustr_def)
  have ci2: "c ! (i + 2) = 42" using occurs_at_nth [OF o, of 2] by (simp add: ustr_def)
  have ck: "c ! k = 42" using occurs_at_nth [OF cl, of 0] by (simp add: ustr_def)
  have ck1: "c ! (k + 1) = 47" using occurs_at_nth [OF cl, of 1] by (simp add: ustr_def)
  have "k \<noteq> i" using ci ck by auto
  moreover have "k \<noteq> i + 1" using ci2 ck1 by auto
  ultimately show ?thesis using ik by arith
qed

lemma doc_slice:
  assumes o: "occurs_at (ustr ''/**'') c i" and cl: "occurs_at (ustr ''*/'') c k" and ik: "i \<le> k"
  defines "d \<equiv> take (k + 2 - i) (drop i c)"
  shows "take 3 d = ustr ''/**''" and "drop (length d - 2) d = ustr ''*/''"
    and "4 \<le> length d" and "hd d = 47" and "last d = 47"
proof -
  have gap: "i + 2 \<le> k" by (rule open_close_gap [OF o cl ik])
  have lo: "i + 3 \<le> length c" and to: "take 3 (drop i c) = ustr ''/**''"
    using o by (simp_all add: occurs_at_def)
  have lc: "k + 2 \<le> length c" and tc: "take 2 (drop k c) = ustr ''*/''"
    using cl by (simp_all add: occurs_at_def)
  have len: "length d = k + 2 - i" using lc by (simp add: d_def)
  show "4 \<le> length d" using len gap by simp
  have m: "min 3 (k + 2 - i) = 3" using gap by arith
  show "take 3 d = ustr ''/**''" unfolding d_def take_take m by (rule to)
  have l2: "length d - 2 = k - i" using len gap by arith
  have n2: "k + 2 - i - (k - i) = 2" using ik by arith
  have dk: "drop (k - i) (drop i c) = drop k c" using ik by simp
  have "drop (k - i) d = take (k + 2 - i - (k - i)) (drop (k - i) (drop i c))"
    unfolding d_def by (rule drop_take)
  then show "drop (length d - 2) d = ustr ''*/''"
    by (simp only: l2 n2 dk tc)
  have "d \<noteq> []" using len gap by auto
  then have "hd d = d ! 0" by (simp add: hd_conv_nth)
  also have "\<dots> = c ! (i + 0)" using lc gap by (simp add: d_def)
  also have "\<dots> = 47" using occurs_at_nth [OF o, of 0] by (simp add: ustr_def)
  finally show "hd d = 47" .
  have "last d = d ! (length d - 1)" using \<open>d \<noteq> []\<close> by (simp add: last_conv_nth)
  also have "\<dots> = c ! (k + 1)" using lc gap by (simp add: len d_def)
  also have "\<dots> = 47" using occurs_at_nth [OF cl, of 1] by (simp add: ustr_def)
  finally show "last d = 47" .
qed

lemma extract_doc_comment_found:
  assumes "occurrences (ustr ''/**'') c = i # r1"
    and "filter ((\<le>) i) (occurrences (ustr ''*/'') c) = k # r2"
  shows "extract_doc_comment c = take (k + 2 - i) (drop i c)"
    and "occurs_at (ustr ''/**'') c i" and "occurs_at (ustr ''*/'') c k" and "i \<le> k"
proof -
  from assms(1) have "filter ((\<le>) 0) (occurrences (ustr ''/**'') c) = i # r1" by simp
  from occurrences_from_Cons [OF this] show o: "occurs_at (ustr ''/**'') c i" by simp
  from occurrences_from_Cons [OF assms(2)]
  show cl: "occurs_at (ustr ''*/'') c k" and ik: "i \<le> k" by simp_all
  have start: "str_find c (ustr ''/**'') 0 = int i"
    using str_find_spec [of c "ustr ''/**''" 0] assms(1) by simp
  have stop: "str_find c (ustr ''*/'') (int i) = int k"
    using str_find_spec [of c "ustr ''*/''" i] assms(2) by simp
  have lc: "k + 2 \<le> length c" using cl by (simp add: occurs_at_def)
  have "int k + 2 = int (k + 2)" by simp
  then have "slice c (int i) (int k + 2) = take (k + 2 - i) (drop i c)"
    using slice_nat [of i "k + 2" c] ik lc by (simp only: trans_le_add1)
  moreover have "strip (take (k + 2 - i) (drop i c)) = take (k + 2 - i) (drop i c)"
    using doc_slice(3-5) [OF o cl ik] by (intro strip_id) (auto simp: isspace_def)
  ultimately show "extract_doc_comment c = take (k + 2 - i) (drop i c)"
    by (simp add: extract_doc_comment_def start stop)
qed

lemma extract_doc_comment_no_open:
  assumes "occurrences (ustr ''/**'') c = []"
  shows "extract_doc_comment c = []"
proof -
  from assms have "str_find c (ustr ''/**'') 0 = - 1"
    using str_find_spec [of c "ustr ''/**''" 0] by simp
  then show ?thesis by (simp add: extract_doc_comment_def)
qed

lemma extract_doc_comment_no_close:
  assumes "occurrences (ustr ''/**'') c = i # r1"
    and "filter ((\<le>) i) (occurrences (ustr ''*/'') c) = []"
  shows "extract_doc_comment c = []"
proof -
  have start: "str_find c (ustr ''/**'') 0 = int i"
    using str_find_spec [of c "ustr ''/**''" 0] assms(1) by simp
  have "str_find c (ustr ''*/'') (int i) = - 1"
    using str_find_spec [of c "ustr ''*/''" i] assms(2) by simp
  with start show ?thesis by (simp add: extract_doc_comment_def)
qed

text \<open>
  Claim C1 (as amended). For every file content, \<open>extract_doc_comment\<close> returns the text
  that begins at the first occurrence of the open marker \<^verbatim>\<open>/**\<close> and ends with the
  first occurrence of the close marker \<^verbatim>\<open>*/\<close> found at or after the position of that open
  marker: both markers are part of the result, the content before the open marker and
  after the close marker is not. (Trimming removes nothing, since the text begins and
  ends with \<^verbatim>\<open>/\<close>.) If there is no open marker, or no close marker at or after the first
  open marker (in particular when a close marker occurs only before it), the result is
  the empty string. Here \<open>i\<close> is the index of the first open marker and \<open>k\<close> the index
  of the first close marker with \<open>i \<le> k\<close>; the result is \<open>content[i : k + 2]\<close>.
\<close>

theorem extract_doc_comment_markers:
  "extract_doc_comment c =
     (case occurrences (ustr ''/**'') c of
        [] \<Rightarrow> []
      | i # _ \<Rightarrow>
          (case filter ((\<le>) i) (occurrences (ustr ''*/'') c) of
             [] \<Rightarrow> []
           | k # _ \<Rightarrow> take (k + 2 - i) (drop i c)))"
proof (cases "occurrences (ustr ''/**'') c")
  case Nil
  with extract_doc_comment_no_open [OF Nil] show ?thesis by simp
next
  case (Cons i r1)
  show ?thesis
  proof (cases "filter ((\<le>) i) (occurrences (ustr ''*/'') c)")
    case Nil
    with extract_doc_comment_no_close [OF Cons Nil] Cons show ?thesis by simp
  next
    case c2: (Cons k r2)
    with extract_doc_comment_found(1) [OF Cons c2] Cons show ?thesis by simp
  qed
qed

text \<open>
  The claim as first stated asks for the text strictly between the markers, without the
  markers; for the content \<^verbatim>\<open>x /** a */ y\<close> that would be \<^verbatim>\<open>a\<close>. The code returns
  \<^verbatim>\<open>/** a */\<close>.
\<close>

theorem extract_doc_comment_between_counterexample:
  "extract_doc_comment (ustr ''x /** a */ y'') = ustr ''/** a */''
   \<and> extract_doc_comment (ustr ''x /** a */ y'') \<noteq> ustr ''a''"
  by (simp add: extract_doc_comment_def ustr_def str_find_def startswith_def slice_def
      strip_def isspace_def)

text \<open>
  Claim C9. Whenever \<open>extract_doc_comment\<close> returns a non-empty string, that string
  begins with the open marker \<^verbatim>\<open>/**\<close> and ends with the close marker \<^verbatim>\<open>*/\<close>: the
  markers are part of the returned doc string.
\<close>

theorem extract_doc_comment_keeps_markers:
  "extract_doc_comment c \<noteq> [] \<Longrightarrow>
     startswith (extract_doc_comment c) (ustr ''/**'') \<and> endswith (extract_doc_comment c) (ustr ''*/'')"
proof -
  assume ne: "extract_doc_comment c \<noteq> []"
  with extract_doc_comment_no_open [of c]
  obtain i r1 where c1: "occurrences (ustr ''/**'') c = i # r1"
    by (cases "occurrences (ustr ''/**'') c") auto
  with ne extract_doc_comment_no_close [of c i r1]
  obtain k r2 where c2: "filter ((\<le>) i) (occurrences (ustr ''*/'') c) = k # r2"
    by (cases "filter ((\<le>) i) (occurrences (ustr ''*/'') c)") auto
  note f = extract_doc_comment_found [OF c1 c2]
  note d = doc_slice [OF f(2) f(3) f(4)]
  have "startswith (extract_doc_comment c) (ustr ''/**'')"
    by (simp only: startswith_def length_open f(1) d(1))
  moreover have "2 \<le> length (take (k + 2 - i) (drop i c))"
    using d(3) by linarith
  then have "endswith (extract_doc_comment c) (ustr ''*/'')"
    by (simp only: endswith_def length_close f(1) d(2) simp_thms)
  ultimately show ?thesis by simp
qed

theorem extract_doc_comment_keeps_markers_witness:
  "extract_doc_comment (ustr ''x /** a */ y'') \<noteq> []
   \<and> startswith (extract_doc_comment (ustr ''x /** a */ y'')) (ustr ''/**'')
   \<and> endswith (extract_doc_comment (ustr ''x /** a */ y'')) (ustr ''*/'')"
proof -
  have ne: "extract_doc_comment (ustr ''x /** a */ y'') \<noteq> []"
    by (simp add: extract_doc_comment_def ustr_def str_find_def startswith_def slice_def
        strip_def isspace_def)
  from extract_doc_comment_keeps_markers [OF ne] ne show ?thesis by simp
qed

subsection \<open>Text encoding\<close>

lemma utf8_char_decode:
  assumes "utf8_char c = Some bs"
  shows "utf8_decode (bs @ r) = map_option ((#) c) (utf8_decode r)"
proof -
  consider (one) "c < 128" | (two) "128 \<le> c" "c < 2048"
    | (three) "2048 \<le> c" "c < 65536" "\<not> (55296 \<le> c \<and> c \<le> 57343)"
    | (four) "65536 \<le> c" "c \<le> 1114111"
    | (none) "(55296 \<le> c \<and> c \<le> 57343) \<or> 1114111 < c"
    by linarith
  then show ?thesis
  proof cases
    case one
    with assms show ?thesis by (auto simp: utf8_char_def)
  next
    case two
    then have bs: "bs = [192 + c div 64, 128 + c mod 64]"
      using assms by (simp add: utf8_char_def)
    have hi: "2 \<le> c div 64" "c div 64 < 32" using two by simp_all
    have lo: "c mod 64 < 64" by simp
    have val: "c div 64 * 64 + c mod 64 = c" by simp
    show ?thesis using hi lo val by (simp add: bs continuation_def)
  next
    case three
    then have bs: "bs = [224 + c div 4096, 128 + c div 64 mod 64, 128 + c mod 64]"
      using assms by (auto simp: utf8_char_def)
    have hi: "c div 4096 < 16" using three by simp
    have mid: "c div 64 mod 64 < 64" and lo: "c mod 64 < 64" by simp_all
    have "c div 64 mod 64 * 64 + c mod 64 = c mod 4096"
      using mod_mult2_eq [of c 64 64] by simp
    moreover have "c div 4096 * 4096 + c mod 4096 = c" by simp
    ultimately have val: "c div 4096 * 4096 + c div 64 mod 64 * 64 + c mod 64 = c"
      by linarith
    show ?thesis using hi mid lo three by (simp add: bs continuation_def val Let_def)
  next
    case four
    then have bs: "bs = [240 + c div 262144, 128 + c div 4096 mod 64, 128 + c div 64 mod 64,
        128 + c mod 64]"
      using assms by (auto simp: utf8_char_def)
    have hi: "c div 262144 < 5" using four by simp
    have b: "c div 4096 mod 64 < 64" "c div 64 mod 64 < 64" "c mod 64 < 64" by simp_all
    have 1: "c div 64 mod 64 * 64 + c mod 64 = c mod 4096"
      using mod_mult2_eq [of c 64 64] by simp
    have 2: "c div 4096 mod 64 * 4096 + c mod 4096 = c mod 262144"
      using mod_mult2_eq [of c 4096 64] by simp
    have 3: "c div 262144 * 262144 + c mod 262144 = c" by simp
    from 1 2 3
    have val: "c div 262144 * 262144 + c div 4096 mod 64 * 4096 + c div 64 mod 64 * 64
        + c mod 64 = c"
      by linarith
    show ?thesis using hi b four by (simp add: bs continuation_def val Let_def)
  next
    case none
    with assms show ?thesis by (auto simp: utf8_char_def split: if_splits)
  qed
qed

lemma utf8_roundtrip: "utf8_encode s = Some b \<Longrightarrow> utf8_decode b = Some s"
proof (induction s arbitrary: b)
  case Nil
  then show ?case by simp
next
  case (Cons c cs)
  then obtain bs r where c: "utf8_char c = Some bs" and r: "utf8_encode cs = Some r"
    and b: "b = bs @ r"
    by (auto split: option.splits)
  from Cons.IH [OF r] utf8_char_decode [OF c, of r] b show ?case by simp
qed

lemma utf8_encode_ascii: "list_all (\<lambda>c. c < 128) s \<Longrightarrow> utf8_encode s = Some s"
  by (induction s) (auto simp: utf8_char_def)

lemma utf8_decode_ascii: "list_all (\<lambda>c. c < 128) b \<Longrightarrow> utf8_decode b = Some b"
  by (induction b) auto

lemma universal_newlines_plain: "13 \<notin> set t \<Longrightarrow> universal_newlines t = t"
  by (induction t) auto

subsection \<open>Writing a file\<close>

lemma write_file_not_kt:
  "\<not> endswith file_name (ustr ''.kt'') \<Longrightarrow>
     write_file f file_name c = Inr (f, ustr ''Error: Only .kt files are allowed.'')"
  by (simp add: write_file_def)

lemma write_file_kt:
  "endswith file_name (ustr ''.kt'') \<Longrightarrow>
     write_file f file_name c =
       (case os_open_w f (os_path_join BEANS_DIR [file_name]) c of
          Inr f' \<Rightarrow> Inr (f', ustr ''Successfully wrote content to '' @ file_name)
        | Inl (OSError e msg, f') \<Rightarrow> Inr (f', ustr ''Error writing to file: '' @ msg)
        | Inl (e, f') \<Rightarrow> Inl (e, f'))"
  by (simp add: write_file_def)

lemma open_path_Inr: "open_path f p = Inr loc \<Longrightarrow> file_location f p = Inr loc"
  by (auto simp: open_path_def split: if_splits sum.splits)

lemma open_path_OSError:
  "open_path f p = Inl (OSError e msg) \<Longrightarrow> msg = fs_strerror f e p"
  by (auto simp: open_path_def split: if_splits sum.splits)

lemma os_open_w_Inr:
  assumes "os_open_w f p c = Inr f'"
  shows "\<exists>loc b. file_location f p = Inr loc \<and> utf8_encode c = Some b
           \<and> f' = f\<lparr>fs_nodes := (fs_nodes f)(loc \<mapsto> File b)\<rparr>"
proof -
  from assms obtain loc where loc: "open_path f p = Inr loc"
    by (cases "open_path f p") (auto simp: os_open_w_def)
  from assms loc obtain b where "utf8_encode c = Some b"
    and "f' = f\<lparr>fs_nodes := (fs_nodes f)(loc \<mapsto> File b)\<rparr>"
    by (auto simp: os_open_w_def split: if_splits option.splits node.splits prod.splits)
  with open_path_Inr [OF loc] show ?thesis by blast
qed

lemma os_open_w_OSError:
  assumes "os_open_w f p c = Inl (OSError e msg, g)"
  shows "g = f \<or> (\<exists>loc left. file_location f p = Inr loc
           \<and> g = f\<lparr>fs_nodes := (fs_nodes f)(loc \<mapsto> File left)\<rparr>)"
proof (cases "open_path f p")
  case (Inl x)
  with assms show ?thesis by (simp add: os_open_w_def)
next
  case (Inr loc)
  with assms have "g = f \<or> (\<exists>left. g = f\<lparr>fs_nodes := (fs_nodes f)(loc \<mapsto> File left)\<rparr>)"
    by (auto simp: os_open_w_def split: if_splits option.splits node.splits prod.splits)
  with open_path_Inr [OF Inr] show ?thesis by blast
qed

lemma BEANS_DIR_eq: "BEANS_DIR = ustr ''./encapt-project/src/main/kotlin/org/camelai/beans''"
  by (simp add: BEANS_DIR_def PROJECT_ROOT_def os_path_join_def join2_def startswith_def
      endswith_def ustr_def)

lemmas example_simps = file_location_def path_start_def startswith_def endswith_def
  example_fs_def example_beans_dir_def node_at_def ustr_def os_path_join_def join2_def
  BEANS_DIR_eq

lemmas open_simps = open_path_def path_encodable_def fs_bytes_def fs_char_bytes_def

lemma example_fs_allows: "\<not> fs_denied example_fs q"
  by (simp add: example_fs_def)

lemma example_fs_no_fault: "fs_write_fault example_fs loc b = None"
  by (simp add: example_fs_def)

lemma encode_hi: "utf8_encode (ustr ''hi'') = Some (ustr ''hi'')"
  by (simp add: ustr_def utf8_char_def)

text \<open>
  Claim C4 (as amended). For every name that does not end in \<^verbatim>\<open>.kt\<close>, \<open>write_file\<close>
  returns the error string \<^verbatim>\<open>Error: Only .kt files are allowed.\<close> and the disk after
  the call is the disk before it. For every name that ends in \<^verbatim>\<open>.kt\<close>, the path is the
  join of the beans directory and the name, and the file is opened for writing there.
  When the file is opened and written, the file at that place is created or overwritten
  and holds exactly the given content (its UTF-8 encoding, which decodes to the
  content), every other node of the disk is as before, and the answer is
  \<^verbatim>\<open>Successfully wrote content to <name>\<close>. When an \<^verbatim>\<open>OSError\<close> is raised, the answer is
  \<^verbatim>\<open>Error writing to file: <str(e)>\<close>; the disk is then as before (the file could not be
  opened: its directory is missing, for example), or it differs from the disk before
  only in that file (the file was opened, and writing it failed).
\<close>

theorem write_file_effect:
  "(\<not> endswith file_name (ustr ''.kt'') \<longrightarrow>
      write_file f file_name c = Inr (f, ustr ''Error: Only .kt files are allowed.''))
   \<and> (endswith file_name (ustr ''.kt'') \<longrightarrow>
        os_open_w f (os_path_join BEANS_DIR [file_name]) c = Inr f' \<longrightarrow>
          write_file f file_name c = Inr (f', ustr ''Successfully wrote content to '' @ file_name)
          \<and> (\<exists>loc b. file_location f (os_path_join BEANS_DIR [file_name]) = Inr loc
                \<and> fs_nodes f' loc = Some (File b)
                \<and> utf8_encode c = Some b \<and> utf8_decode b = Some c
                \<and> (\<forall>q. q \<noteq> loc \<longrightarrow> fs_nodes f' q = fs_nodes f q)))
   \<and> (endswith file_name (ustr ''.kt'') \<longrightarrow>
        os_open_w f (os_path_join BEANS_DIR [file_name]) c = Inl (OSError e msg, g) \<longrightarrow>
          write_file f file_name c = Inr (g, ustr ''Error writing to file: '' @ msg)
          \<and> (g = f
              \<or> (\<exists>loc left. file_location f (os_path_join BEANS_DIR [file_name]) = Inr loc
                    \<and> fs_nodes g loc = Some (File left)
                    \<and> (\<forall>q. q \<noteq> loc \<longrightarrow> fs_nodes g q = fs_nodes f q))))"
proof (intro conjI impI)
  assume "\<not> endswith file_name (ustr ''.kt'')"
  then show "write_file f file_name c = Inr (f, ustr ''Error: Only .kt files are allowed.'')"
    by (rule write_file_not_kt)
next
  assume kt: "endswith file_name (ustr ''.kt'')"
    and ok: "os_open_w f (os_path_join BEANS_DIR [file_name]) c = Inr f'"
  from write_file_kt [OF kt, of f c] ok
  show "write_file f file_name c = Inr (f', ustr ''Successfully wrote content to '' @ file_name)"
    by simp
  from os_open_w_Inr [OF ok] obtain loc b where
    loc: "file_location f (os_path_join BEANS_DIR [file_name]) = Inr loc"
    and enc: "utf8_encode c = Some b"
    and f': "f' = f\<lparr>fs_nodes := (fs_nodes f)(loc \<mapsto> File b)\<rparr>" by blast
  from f' have "fs_nodes f' loc = Some (File b)" "\<forall>q. q \<noteq> loc \<longrightarrow> fs_nodes f' q = fs_nodes f q"
    by simp_all
  with loc enc utf8_roundtrip [OF enc]
  show "\<exists>loc b. file_location f (os_path_join BEANS_DIR [file_name]) = Inr loc
                \<and> fs_nodes f' loc = Some (File b)
                \<and> utf8_encode c = Some b \<and> utf8_decode b = Some c
                \<and> (\<forall>q. q \<noteq> loc \<longrightarrow> fs_nodes f' q = fs_nodes f q)" by blast
next
  assume kt: "endswith file_name (ustr ''.kt'')"
    and err: "os_open_w f (os_path_join BEANS_DIR [file_name]) c = Inl (OSError e msg, g)"
  from write_file_kt [OF kt, of f c] err
  show "write_file f file_name c = Inr (g, ustr ''Error writing to file: '' @ msg)" by simp
  from os_open_w_OSError [OF err]
  show "g = f
        \<or> (\<exists>loc left. file_location f (os_path_join BEANS_DIR [file_name]) = Inr loc
              \<and> fs_nodes g loc = Some (File left)
              \<and> (\<forall>q. q \<noteq> loc \<longrightarrow> fs_nodes g q = fs_nodes f q))"
  proof
    assume "g = f"
    then show ?thesis by simp
  next
    assume "\<exists>loc left. file_location f (os_path_join BEANS_DIR [file_name]) = Inr loc
           \<and> g = f\<lparr>fs_nodes := (fs_nodes f)(loc \<mapsto> File left)\<rparr>"
    then obtain loc left where
      loc: "file_location f (os_path_join BEANS_DIR [file_name]) = Inr loc"
      and g: "g = f\<lparr>fs_nodes := (fs_nodes f)(loc \<mapsto> File left)\<rparr>" by blast
    from g have "fs_nodes g loc = Some (File left)" "\<forall>q. q \<noteq> loc \<longrightarrow> fs_nodes g q = fs_nodes f q"
      by simp_all
    with loc show ?thesis by blast
  qed
qed

text \<open>
  The claim as first stated promises the file for every name that ends in \<^verbatim>\<open>.kt\<close>. On
  \<open>example_fs\<close> the beans directory has no subdirectory \<^verbatim>\<open>sub\<close>: for the name
  \<^verbatim>\<open>sub/X.kt\<close> the call to \<^verbatim>\<open>open\<close> raises, \<open>write_file\<close> answers with the error string,
  and no file is there afterwards.
\<close>

theorem write_file_missing_directory_counterexample:
  "endswith (ustr ''sub/X.kt'') (ustr ''.kt'')
   \<and> write_file example_fs (ustr ''sub/X.kt'') (ustr ''hi'') =
       Inr (example_fs, ustr ''Error writing to file: [Errno] ./encapt-project/src/main/kotlin/org/camelai/beans/sub/X.kt'')
   \<and> fs_nodes example_fs (example_beans_dir @ [ustr ''sub'', ustr ''X.kt'']) = None"
proof -
  have kt: "endswith (ustr ''sub/X.kt'') (ustr ''.kt'')"
    by (simp add: endswith_def ustr_def)
  have none: "fs_nodes example_fs (example_beans_dir @ [ustr ''sub'', ustr ''X.kt'']) = None"
    by (simp add: example_fs_def example_beans_dir_def)
  have "open_path example_fs (os_path_join BEANS_DIR [ustr ''sub/X.kt''])
      = Inl (OSError ENOENT (ustr ''[Errno] ./encapt-project/src/main/kotlin/org/camelai/beans/sub/X.kt''))"
    by (simp add: open_simps example_simps)
  then have "os_open_w example_fs (os_path_join BEANS_DIR [ustr ''sub/X.kt'']) (ustr ''hi'')
      = Inl (OSError ENOENT (ustr ''[Errno] ./encapt-project/src/main/kotlin/org/camelai/beans/sub/X.kt''),
             example_fs)"
    by (simp add: os_open_w_def)
  with kt none write_file_kt [OF kt, of example_fs "ustr ''hi''"] show ?thesis
    by (simp add: ustr_def)
qed

theorem write_file_effect_witness:
  "write_file example_fs (ustr ''notes.txt'') (ustr ''hi'') =
       Inr (example_fs, ustr ''Error: Only .kt files are allowed.'')
   \<and> write_file example_fs (ustr ''X.kt'') (ustr ''hi'') =
       Inr (example_fs\<lparr>fs_nodes := (fs_nodes example_fs)(example_beans_dir @ [ustr ''X.kt''] \<mapsto> File (ustr ''hi''))\<rparr>,
            ustr ''Successfully wrote content to X.kt'')
   \<and> write_file example_fs (ustr ''sub/X.kt'') (ustr ''hi'') =
       Inr (example_fs, ustr ''Error writing to file: [Errno] ./encapt-project/src/main/kotlin/org/camelai/beans/sub/X.kt'')
   \<and> write_file example_fs_full (ustr ''X.kt'') (ustr ''hi'') =
       Inr (example_fs_full\<lparr>fs_nodes := (fs_nodes example_fs_full)(example_beans_dir @ [ustr ''X.kt''] \<mapsto> File (ustr ''h''))\<rparr>,
            ustr ''Error writing to file: [Errno] ./encapt-project/src/main/kotlin/org/camelai/beans/X.kt'')"
proof -
  have n1: "\<not> endswith (ustr ''notes.txt'') (ustr ''.kt'')"
    by (simp add: endswith_def ustr_def)
  have k2: "endswith (ustr ''X.kt'') (ustr ''.kt'')"
    by (simp add: endswith_def ustr_def)
  have k3: "endswith (ustr ''sub/X.kt'') (ustr ''.kt'')"
    by (simp add: endswith_def ustr_def)
  have loc2: "open_path example_fs (os_path_join BEANS_DIR [ustr ''X.kt''])
      = Inr (example_beans_dir @ [ustr ''X.kt''])"
    by (simp add: open_simps example_simps)
  have free2: "node_at (fs_nodes example_fs) (example_beans_dir @ [ustr ''X.kt'']) = None"
    by (simp add: example_simps)
  have ok2: "os_open_w example_fs (os_path_join BEANS_DIR [ustr ''X.kt'']) (ustr ''hi'')
      = Inr (example_fs\<lparr>fs_nodes := (fs_nodes example_fs)(example_beans_dir @ [ustr ''X.kt''] \<mapsto> File (ustr ''hi''))\<rparr>)"
    by (simp add: os_open_w_def loc2 free2 example_fs_allows example_fs_no_fault encode_hi)
  have loc3: "open_path example_fs (os_path_join BEANS_DIR [ustr ''sub/X.kt''])
      = Inl (OSError ENOENT (ustr ''[Errno] ./encapt-project/src/main/kotlin/org/camelai/beans/sub/X.kt''))"
    by (simp add: open_simps example_simps)
  then have err3: "os_open_w example_fs (os_path_join BEANS_DIR [ustr ''sub/X.kt'']) (ustr ''hi'')
        = Inl (OSError ENOENT (ustr ''[Errno] ./encapt-project/src/main/kotlin/org/camelai/beans/sub/X.kt''),
               example_fs)"
    by (simp add: os_open_w_def)
  from write_file_effect [of "ustr ''notes.txt''" example_fs "ustr ''hi''"] n1
  have 1: "write_file example_fs (ustr ''notes.txt'') (ustr ''hi'') =
       Inr (example_fs, ustr ''Error: Only .kt files are allowed.'')" by blast
  from write_file_effect [of "ustr ''X.kt''" example_fs "ustr ''hi''"] k2 ok2
  have 2: "write_file example_fs (ustr ''X.kt'') (ustr ''hi'') =
       Inr (example_fs\<lparr>fs_nodes := (fs_nodes example_fs)(example_beans_dir @ [ustr ''X.kt''] \<mapsto> File (ustr ''hi''))\<rparr>,
            ustr ''Successfully wrote content to '' @ ustr ''X.kt'')" by blast
  from write_file_effect [of "ustr ''sub/X.kt''" example_fs "ustr ''hi''"] k3 err3
  have 3: "write_file example_fs (ustr ''sub/X.kt'') (ustr ''hi'') =
       Inr (example_fs, ustr ''Error writing to file: '' @ ustr ''[Errno] ./encapt-project/src/main/kotlin/org/camelai/beans/sub/X.kt'')" by blast
  have loc4: "open_path example_fs_full (os_path_join BEANS_DIR [ustr ''X.kt''])
      = Inr (example_beans_dir @ [ustr ''X.kt''])"
    by (simp add: example_fs_full_def open_simps example_simps)
  have free4: "node_at (fs_nodes example_fs_full) (example_beans_dir @ [ustr ''X.kt'']) = None"
    by (simp add: example_fs_full_def example_simps)
  have env4: "\<not> fs_denied example_fs_full q"
    "fs_write_fault example_fs_full loc b = Some (ENOSPC, take 1 b)"
    "fs_strerror example_fs_full e p = ustr ''[Errno] '' @ p" for q loc b e p
    by (simp_all add: example_fs_full_def example_fs_def)
  have err4: "os_open_w example_fs_full (os_path_join BEANS_DIR [ustr ''X.kt'']) (ustr ''hi'')
      = Inl (OSError ENOSPC (ustr ''[Errno] ./encapt-project/src/main/kotlin/org/camelai/beans/X.kt''),
             example_fs_full\<lparr>fs_nodes := (fs_nodes example_fs_full)(example_beans_dir @ [ustr ''X.kt''] \<mapsto> File (ustr ''h''))\<rparr>)"
    by (simp add: os_open_w_def loc4 free4 env4 encode_hi)
      (simp add: ustr_def os_path_join_def join2_def startswith_def endswith_def BEANS_DIR_eq)
  from write_file_effect [of "ustr ''X.kt''" example_fs_full "ustr ''hi''"] k2 err4
  have 4: "write_file example_fs_full (ustr ''X.kt'') (ustr ''hi'') =
       Inr (example_fs_full\<lparr>fs_nodes := (fs_nodes example_fs_full)(example_beans_dir @ [ustr ''X.kt''] \<mapsto> File (ustr ''h''))\<rparr>,
            ustr ''Error writing to file: '' @ ustr ''[Errno] ./encapt-project/src/main/kotlin/org/camelai/beans/X.kt'')" by blast
  have a4: "ustr ''Error writing to file: '' @ ustr ''[Errno] ./encapt-project/src/main/kotlin/org/camelai/beans/X.kt''
     = ustr ''Error writing to file: [Errno] ./encapt-project/src/main/kotlin/org/camelai/beans/X.kt''"
    by (simp add: ustr_def)
  have a2: "ustr ''Successfully wrote content to '' @ ustr ''X.kt'' = ustr ''Successfully wrote content to X.kt''"
    by (simp add: ustr_def)
  have a3: "ustr ''Error writing to file: '' @ ustr ''[Errno] ./encapt-project/src/main/kotlin/org/camelai/beans/sub/X.kt''
     = ustr ''Error writing to file: [Errno] ./encapt-project/src/main/kotlin/org/camelai/beans/sub/X.kt''"
    by (simp add: ustr_def)
  from 1 2 3 4 show ?thesis by (simp only: a2 a3 a4 simp_thms)
qed

text \<open>
  One more run on \<open>example_fs\<close>. A content with a surrogate cannot be encoded: the
  file is opened, and so created with no bytes, and the \<^verbatim>\<open>UnicodeEncodeError\<close> of
  \<^verbatim>\<open>file.write\<close> is not an \<^verbatim>\<open>IOError\<close> and leaves the tool.
\<close>

lemma write_file_surrogate_example:
  "write_file example_fs (ustr ''S.kt'') (ustr ''ok'' @ [55296]) =
     Inl (UnicodeEncodeError,
          example_fs\<lparr>fs_nodes := (fs_nodes example_fs)(example_beans_dir @ [ustr ''S.kt''] \<mapsto> File [])\<rparr>)"
proof -
  have kt: "endswith (ustr ''S.kt'') (ustr ''.kt'')"
    by (simp add: endswith_def ustr_def)
  have loc: "open_path example_fs (os_path_join BEANS_DIR [ustr ''S.kt''])
      = Inr (example_beans_dir @ [ustr ''S.kt''])"
    by (simp add: open_simps example_simps)
  have free: "node_at (fs_nodes example_fs) (example_beans_dir @ [ustr ''S.kt'']) = None"
    by (simp add: example_simps)
  have enc: "utf8_encode (ustr ''ok'' @ [55296]) = None"
    by (simp add: ustr_def utf8_char_def)
  have "os_open_w example_fs (os_path_join BEANS_DIR [ustr ''S.kt'']) (ustr ''ok'' @ [55296])
      = Inl (UnicodeEncodeError,
             example_fs\<lparr>fs_nodes := (fs_nodes example_fs)(example_beans_dir @ [ustr ''S.kt''] \<mapsto> File [])\<rparr>)"
    by (simp add: os_open_w_def loc free example_fs_allows enc)
  with write_file_kt [OF kt, of example_fs "ustr ''ok'' @ [55296]"] show ?thesis by simp
qed


subsection \<open>No check of the path\<close>

lemma split_on_not_Nil: "split_on sep s \<noteq> []"
  by (induction s) (auto split: list.splits)

lemma split_on_append:
  "split_on sep (a @ sep # b) = split_on sep a @ split_on sep b"
proof (induction a)
  case Nil
  then show ?case by simp
next
  case (Cons c a)
  with split_on_not_Nil [of sep a] show ?case
    by (cases "split_on sep a") auto
qed

lemma split_on_plain: "sep \<notin> set s \<Longrightarrow> split_on sep s = [s]"
  by (induction s) auto

lemma walk_dirs_append:
  "walk_dirs nd d (xs @ ys) =
     (case walk_dirs nd d xs of Inl e \<Rightarrow> Inl e | Inr d' \<Rightarrow> walk_dirs nd d' ys)"
  by (induction xs arbitrary: d) (auto split: option.splits node.splits)

lemma join_beans_dir:
  "\<not> startswith n (ustr ''/'') \<Longrightarrow> os_path_join BEANS_DIR [n] = BEANS_DIR @ 47 # n"
  by (simp add: os_path_join_def join2_def) (simp add: BEANS_DIR_eq endswith_def ustr_def)

lemma endswith_append:
  assumes "endswith b p"
  shows "endswith (a @ b) p"
proof -
  from assms have l: "length p \<le> length b" and d: "drop (length b - length p) b = p"
    by (simp_all add: endswith_def)
  from l have "length (a @ b) - length p = length a + (length b - length p)" by simp
  then have "drop (length (a @ b) - length p) (a @ b) = drop (length b - length p) b"
    by (simp only: drop_append) simp
  with l d show ?thesis by (simp only: endswith_def) simp
qed

lemma parent_traversal:
  assumes d: "walk_dirs (fs_nodes f) (fs_cwd f) (split_on 47 BEANS_DIR) = Inr d"
    and kt: "endswith base (ustr ''.kt'')" and plain: "47 \<notin> set base"
  shows "file_location f (os_path_join BEANS_DIR [ustr ''../'' @ base]) = Inr (butlast d @ [base])"
proof -
  have p: "os_path_join BEANS_DIR [ustr ''../'' @ base] = BEANS_DIR @ 47 # (ustr ''..'' @ 47 # base)"
    using join_beans_dir [of "ustr ''../'' @ base"] by (simp add: startswith_def ustr_def)
  have up: "split_on 47 (ustr ''..'') = [ustr ''..'']" by (simp add: ustr_def)
  have cs: "split_on 47 (BEANS_DIR @ 47 # (ustr ''..'' @ 47 # base))
      = (split_on 47 BEANS_DIR @ [ustr ''..'']) @ [base]"
    using plain by (simp add: split_on_append split_on_plain up)
  have rel: "path_start f (BEANS_DIR @ 47 # (ustr ''..'' @ 47 # base)) = fs_cwd f"
    by (simp add: path_start_def startswith_def BEANS_DIR_eq ustr_def)
  have len: "3 \<le> length base" using kt by (simp add: endswith_def ustr_def)
  then have nm: "base \<noteq> []" "base \<noteq> ustr ''.''" "base \<noteq> ustr ''..''"
    by (auto simp: ustr_def)
  have w: "walk_dirs (fs_nodes f) (fs_cwd f) (split_on 47 BEANS_DIR @ [ustr ''..'']) = Inr (butlast d)"
    by (simp add: walk_dirs_append d ustr_def)
  have ne: "BEANS_DIR @ 47 # (ustr ''..'' @ 47 # base) \<noteq> []" by simp
  show ?thesis
    unfolding p file_location_def Let_def cs rel
    using nm w ne by (simp del: append_assoc)
qed

text \<open>
  Claim C5. \<open>write_file\<close> checks nothing about the name but its ending: for every name
  that ends in \<^verbatim>\<open>.kt\<close>, with or without \<^verbatim>\<open>/\<close> or \<^verbatim>\<open>..\<close> in it, the outcome is the
  outcome of opening the join of the beans directory and the name for writing. That
  path can lie outside the beans directory: when the beans directory is at the place
  \<open>d\<close> of the disk, the name \<^verbatim>\<open>../\<close>\<open>base\<close> names a file in the parent directory of \<open>d\<close>.
  On \<open>example_fs\<close> the name \<^verbatim>\<open>../x.kt\<close> is written to
  \<^verbatim>\<open>/work/encapt-project/src/main/kotlin/org/camelai/x.kt\<close>, which is not below the beans
  directory.
\<close>

theorem write_file_unsanitized:
  "(endswith file_name (ustr ''.kt'') \<longrightarrow>
      write_file f file_name c =
        (case os_open_w f (os_path_join BEANS_DIR [file_name]) c of
           Inr f' \<Rightarrow> Inr (f', ustr ''Successfully wrote content to '' @ file_name)
         | Inl (OSError e msg, f') \<Rightarrow> Inr (f', ustr ''Error writing to file: '' @ msg)
         | Inl (e, f') \<Rightarrow> Inl (e, f')))
   \<and> (walk_dirs (fs_nodes f) (fs_cwd f) (split_on 47 BEANS_DIR) = Inr d \<longrightarrow>
        endswith base (ustr ''.kt'') \<longrightarrow> 47 \<notin> set base \<longrightarrow>
          endswith (ustr ''../'' @ base) (ustr ''.kt'')
          \<and> file_location f (os_path_join BEANS_DIR [ustr ''../'' @ base]) = Inr (butlast d @ [base]))
   \<and> walk_dirs (fs_nodes example_fs) (fs_cwd example_fs) (split_on 47 BEANS_DIR)
       = Inr example_beans_dir
   \<and> write_file example_fs (ustr ''../x.kt'') (ustr ''hi'') =
       Inr (example_fs\<lparr>fs_nodes := (fs_nodes example_fs)
              (butlast example_beans_dir @ [ustr ''x.kt''] \<mapsto> File (ustr ''hi''))\<rparr>,
            ustr ''Successfully wrote content to ../x.kt'')
   \<and> take (length example_beans_dir) (butlast example_beans_dir @ [ustr ''x.kt''])
       \<noteq> example_beans_dir"
proof (intro conjI impI)
  assume "endswith file_name (ustr ''.kt'')"
  then show "write_file f file_name c =
        (case os_open_w f (os_path_join BEANS_DIR [file_name]) c of
           Inr f' \<Rightarrow> Inr (f', ustr ''Successfully wrote content to '' @ file_name)
         | Inl (OSError e msg, f') \<Rightarrow> Inr (f', ustr ''Error writing to file: '' @ msg)
         | Inl (e, f') \<Rightarrow> Inl (e, f'))"
    by (rule write_file_kt)
next
  assume "endswith base (ustr ''.kt'')"
  then show "endswith (ustr ''../'' @ base) (ustr ''.kt'')" by (rule endswith_append)
next
  assume "walk_dirs (fs_nodes f) (fs_cwd f) (split_on 47 BEANS_DIR) = Inr d"
    and "endswith base (ustr ''.kt'')" and "47 \<notin> set base"
  then show "file_location f (os_path_join BEANS_DIR [ustr ''../'' @ base]) = Inr (butlast d @ [base])"
    by (rule parent_traversal)
next
  show "walk_dirs (fs_nodes example_fs) (fs_cwd example_fs) (split_on 47 BEANS_DIR)
       = Inr example_beans_dir"
    by (simp add: example_simps)
next
  have kt: "endswith (ustr ''../x.kt'') (ustr ''.kt'')"
    by (simp add: endswith_def ustr_def)
  have loc: "open_path example_fs (os_path_join BEANS_DIR [ustr ''../x.kt''])
      = Inr (butlast example_beans_dir @ [ustr ''x.kt''])"
    by (simp add: open_simps example_simps)
  have free: "node_at (fs_nodes example_fs) (butlast example_beans_dir @ [ustr ''x.kt'']) = None"
    by (simp add: example_simps)
  have ok: "os_open_w example_fs (os_path_join BEANS_DIR [ustr ''../x.kt'']) (ustr ''hi'')
      = Inr (example_fs\<lparr>fs_nodes := (fs_nodes example_fs)
              (butlast example_beans_dir @ [ustr ''x.kt''] \<mapsto> File (ustr ''hi''))\<rparr>)"
    by (simp add: os_open_w_def loc free example_fs_allows example_fs_no_fault encode_hi)
  have msg: "ustr ''Successfully wrote content to '' @ ustr ''../x.kt'' = ustr ''Successfully wrote content to ../x.kt''"
    by (simp add: ustr_def)
  from write_file_kt [OF kt, of example_fs "ustr ''hi''"] ok
  show "write_file example_fs (ustr ''../x.kt'') (ustr ''hi'') =
       Inr (example_fs\<lparr>fs_nodes := (fs_nodes example_fs)
              (butlast example_beans_dir @ [ustr ''x.kt''] \<mapsto> File (ustr ''hi''))\<rparr>,
            ustr ''Successfully wrote content to ../x.kt'')"
    by (simp add: msg)
next
  show "take (length example_beans_dir) (butlast example_beans_dir @ [ustr ''x.kt'']) \<noteq> example_beans_dir"
    by (simp add: example_beans_dir_def ustr_def)
qed

theorem write_file_unsanitized_witness:
  "write_file example_fs (ustr ''a/../../x.kt'') (ustr ''hi'') =
       Inr (example_fs, ustr ''Error writing to file: [Errno] ./encapt-project/src/main/kotlin/org/camelai/beans/a/../../x.kt'')
   \<and> file_location example_fs (os_path_join BEANS_DIR [ustr ''../'' @ ustr ''x.kt''])
       = Inr (butlast example_beans_dir @ [ustr ''x.kt''])"
proof -
  note inst1 = write_file_unsanitized [of "ustr ''a/../../x.kt''" example_fs "ustr ''hi''"]
  note inst2 = write_file_unsanitized [of _ example_fs _ example_beans_dir "ustr ''x.kt''"]
  have kt: "endswith (ustr ''a/../../x.kt'') (ustr ''.kt'')"
    by (simp add: endswith_def ustr_def)
  have loc: "open_path example_fs (os_path_join BEANS_DIR [ustr ''a/../../x.kt''])
      = Inl (OSError ENOENT (ustr ''[Errno] ./encapt-project/src/main/kotlin/org/camelai/beans/a/../../x.kt''))"
    by (simp add: open_simps example_simps)
  then have err: "os_open_w example_fs (os_path_join BEANS_DIR [ustr ''a/../../x.kt'']) (ustr ''hi'')
        = Inl (OSError ENOENT (ustr ''[Errno] ./encapt-project/src/main/kotlin/org/camelai/beans/a/../../x.kt''),
               example_fs)"
    by (simp add: os_open_w_def)
  from inst1 kt err have 1: "write_file example_fs (ustr ''a/../../x.kt'') (ustr ''hi'') =
       Inr (example_fs, ustr ''Error writing to file: [Errno] ./encapt-project/src/main/kotlin/org/camelai/beans/a/../../x.kt'')"
    by (simp add: ustr_def)
  have d: "walk_dirs (fs_nodes example_fs) (fs_cwd example_fs) (split_on 47 BEANS_DIR)
       = Inr example_beans_dir"
    by (simp add: example_simps)
  have b: "endswith (ustr ''x.kt'') (ustr ''.kt'')" "47 \<notin> set (ustr ''x.kt'')"
    by (simp_all add: endswith_def ustr_def)
  from inst2 d b have 2: "file_location example_fs (os_path_join BEANS_DIR [ustr ''../'' @ ustr ''x.kt''])
       = Inr (butlast example_beans_dir @ [ustr ''x.kt''])" by blast
  from 1 2 show ?thesis by simp
qed

text \<open>
  A name that is too long for the file system: on \<open>example_fs\<close> a name of 303 bytes is
  refused by \<^verbatim>\<open>open\<close> with an \<^verbatim>\<open>OSError\<close>, and \<open>write_file\<close> answers with the error
  string and leaves the disk as it is.
\<close>

lemma name_too_long_append:
  "name_too_long n nd d (xs @ ys) =
     (name_too_long n nd d xs
      \<or> (case walk_dirs nd d xs of Inl e \<Rightarrow> False | Inr d' \<Rightarrow> name_too_long n nd d' ys))"
  by (induction xs arbitrary: d) (auto split: option.splits node.splits)

lemma write_file_long_name_example:
  "write_file example_fs (replicate 300 97 @ ustr ''.kt'') (ustr ''hi'') =
     Inr (example_fs,
          ustr ''Error writing to file: [Errno] ./encapt-project/src/main/kotlin/org/camelai/beans/''
          @ replicate 300 97 @ ustr ''.kt'')"
proof -
  let ?n = "replicate 300 97 @ ustr ''.kt''"
  have kt: "endswith ?n (ustr ''.kt'')"
    by (rule endswith_append) (simp add: endswith_def)
  have p: "os_path_join BEANS_DIR [?n] = BEANS_DIR @ 47 # ?n"
    by (rule join_beans_dir) (simp add: startswith_def ustr_def)
  have plain: "47 \<notin> set ?n" by (simp add: ustr_def)
  have cs: "split_on 47 (BEANS_DIR @ 47 # ?n) = split_on 47 BEANS_DIR @ [?n]"
    using split_on_plain [OF plain] by (simp only: split_on_append)
  have enc: "path_encodable (BEANS_DIR @ 47 # ?n)"
    by (simp add: path_encodable_def BEANS_DIR_eq ustr_def list_all_iff)
  have nul: "0 \<notin> set (BEANS_DIR @ 47 # ?n)"
    by (simp add: BEANS_DIR_eq ustr_def)
  have len: "fs_bytes ?n = 303"
    by (simp add: fs_bytes_def fs_char_bytes_def ustr_def sum_list_replicate)
  have start: "path_start example_fs (BEANS_DIR @ 47 # ?n) = fs_cwd example_fs"
    by (simp add: path_start_def startswith_def BEANS_DIR_eq ustr_def)
  have d: "walk_dirs (fs_nodes example_fs) (fs_cwd example_fs) (split_on 47 BEANS_DIR)
       = Inr example_beans_dir"
    by (simp add: example_simps)
  have ne: "?n \<noteq> []" "?n \<noteq> ustr ''.''" "?n \<noteq> ustr ''..''"
    by (simp_all add: ustr_def)
  have last: "name_too_long (fs_name_max example_fs) (fs_nodes example_fs) example_beans_dir [?n]"
    using ne len by (simp add: example_fs_def)
  have long: "name_too_long (fs_name_max example_fs) (fs_nodes example_fs)
      (path_start example_fs (BEANS_DIR @ 47 # ?n)) (split_on 47 (BEANS_DIR @ 47 # ?n))"
    unfolding cs start by (simp only: name_too_long_append d sum.case last simp_thms)
  have "open_path example_fs (BEANS_DIR @ 47 # ?n)
      = Inl (OSError ENAMETOOLONG (fs_strerror example_fs ENAMETOOLONG (BEANS_DIR @ 47 # ?n)))"
    using enc nul long by (simp add: open_path_def)
  moreover have "fs_strerror example_fs ENAMETOOLONG (BEANS_DIR @ 47 # ?n)
      = ustr ''[Errno] ./encapt-project/src/main/kotlin/org/camelai/beans/'' @ ?n"
    by (simp add: example_fs_def BEANS_DIR_eq ustr_def)
  ultimately have "os_open_w example_fs (os_path_join BEANS_DIR [?n]) (ustr ''hi'')
      = Inl (OSError ENAMETOOLONG
               (ustr ''[Errno] ./encapt-project/src/main/kotlin/org/camelai/beans/'' @ ?n),
             example_fs)"
    by (simp add: os_open_w_def p)
  with write_file_kt [OF kt, of example_fs "ustr ''hi''"] show ?thesis
    by (simp add: ustr_def)
qed

subsection \<open>Creating a directory\<close>

lemma node_at_snoc: "node_at nd (d @ [c]) = nd (d @ [c])"
  by (simp add: node_at_def)

lemma mkdirs_keeps:
  "mkdirs deny nd d cs = Inr nd' \<Longrightarrow> nd p = Some Dir \<Longrightarrow> nd' p = Some Dir"
proof (induction cs arbitrary: nd d)
  case Nil
  then show ?case by simp
next
  case (Cons c cs)
  show ?case
  proof (cases "c = [] \<or> c = ustr ''.''")
    case True
    with Cons show ?thesis by (auto simp: node_at_snoc)
  next
    case plain: False
    show ?thesis
    proof (cases "c = ustr ''..''")
      case True
      with plain Cons show ?thesis by (auto simp: node_at_snoc)
    next
      case False
      show ?thesis
      proof (cases "nd (d @ [c])")
        case None
        with plain False Cons.prems
        have run: "mkdirs deny (nd((d @ [c]) \<mapsto> Dir)) (d @ [c]) cs = Inr nd'"
          by (auto simp: node_at_snoc split: if_splits)
        have "(nd((d @ [c]) \<mapsto> Dir)) p = Some Dir" using Cons.prems(2) by simp
        from Cons.IH [OF run this] show ?thesis .
      next
        case (Some n)
        with plain False Cons.prems have run: "mkdirs deny nd (d @ [c]) cs = Inr nd'"
          by (cases n) (auto simp: node_at_snoc)
        from Cons.IH [OF run Cons.prems(2)] show ?thesis .
      qed
    qed
  qed
qed

lemma mkdirs_idem:
  "mkdirs deny nd d cs = Inr nd' \<Longrightarrow> mkdirs deny nd' d cs = Inr nd'"
proof (induction cs arbitrary: nd d)
  case Nil
  then show ?case by simp
next
  case (Cons c cs)
  show ?case
  proof (cases "c = [] \<or> c = ustr ''.''")
    case True
    with Cons show ?thesis by (auto simp: node_at_snoc)
  next
    case plain: False
    show ?thesis
    proof (cases "c = ustr ''..''")
      case True
      with plain Cons show ?thesis by (auto simp: node_at_snoc)
    next
      case False
      show ?thesis
      proof (cases "nd (d @ [c])")
        case None
        with plain False Cons.prems
        have run: "mkdirs deny (nd((d @ [c]) \<mapsto> Dir)) (d @ [c]) cs = Inr nd'"
          by (auto simp: node_at_snoc split: if_splits)
        have "nd' (d @ [c]) = Some Dir" by (rule mkdirs_keeps [OF run]) simp
        with Cons.IH [OF run] plain False show ?thesis by (simp add: node_at_snoc)
      next
        case (Some n)
        with plain False Cons.prems have n: "n = Dir" by (cases n) (auto simp: node_at_snoc)
        with Some plain False Cons.prems have run: "mkdirs deny nd (d @ [c]) cs = Inr nd'"
          by (auto simp: node_at_snoc)
        have "nd' (d @ [c]) = Some Dir" by (rule mkdirs_keeps [OF run]) (simp add: Some n)
        with Cons.IH [OF run] plain False show ?thesis by (simp add: node_at_snoc)
      qed
    qed
  qed
qed

lemma mkdirs_walk:
  "mkdirs deny nd d cs = Inr nd' \<Longrightarrow> \<exists>d'. walk_dirs nd' d cs = Inr d'"
proof (induction cs arbitrary: nd d)
  case Nil
  then show ?case by simp
next
  case (Cons c cs)
  show ?case
  proof (cases "c = [] \<or> c = ustr ''.''")
    case True
    with Cons show ?thesis by (auto simp: node_at_snoc)
  next
    case plain: False
    show ?thesis
    proof (cases "c = ustr ''..''")
      case True
      with plain Cons show ?thesis by (auto simp: node_at_snoc)
    next
      case False
      show ?thesis
      proof (cases "nd (d @ [c])")
        case None
        with plain False Cons.prems
        have run: "mkdirs deny (nd((d @ [c]) \<mapsto> Dir)) (d @ [c]) cs = Inr nd'"
          by (auto simp: node_at_snoc split: if_splits)
        have "nd' (d @ [c]) = Some Dir" by (rule mkdirs_keeps [OF run]) simp
        with Cons.IH [OF run] plain False show ?thesis by (simp add: node_at_snoc)
      next
        case (Some n)
        with plain False Cons.prems have n: "n = Dir" by (cases n) (auto simp: node_at_snoc)
        with Some plain False Cons.prems have run: "mkdirs deny nd (d @ [c]) cs = Inr nd'"
          by (auto simp: node_at_snoc)
        have "nd' (d @ [c]) = Some Dir" by (rule mkdirs_keeps [OF run]) (simp add: Some n)
        with Cons.IH [OF run] plain False show ?thesis by (simp add: node_at_snoc)
      qed
    qed
  qed
qed

lemma os_makedirs_Inr:
  assumes "os_makedirs f p True = Inr f'"
  shows "0 \<notin> set p \<and> p \<noteq> [] \<and>
    (\<exists>nd. mkdirs (fs_denied f) (fs_nodes f) (path_start f p) (split_on 47 p) = Inr nd
        \<and> f' = f\<lparr>fs_nodes := nd\<rparr>)"
  using assms by (auto simp: os_makedirs_def split: if_splits sum.splits)

lemma os_makedirs_again:
  assumes "os_makedirs f p True = Inr f'"
  shows "os_makedirs f' p True = Inr f'" and "os_path_isdir f' p"
proof -
  from os_makedirs_Inr [OF assms] obtain nd where p: "0 \<notin> set p" "p \<noteq> []"
    and run: "mkdirs (fs_denied f) (fs_nodes f) (path_start f p) (split_on 47 p) = Inr nd"
    and f': "f' = f\<lparr>fs_nodes := nd\<rparr>" by blast
  have start: "path_start (f\<lparr>fs_nodes := nd\<rparr>) p = path_start f p" by (simp add: path_start_def)
  from mkdirs_idem [OF run] p show "os_makedirs f' p True = Inr f'"
    by (simp add: os_makedirs_def start f')
  from mkdirs_walk [OF run] obtain d' where "walk_dirs nd (path_start f p) (split_on 47 p) = Inr d'"
    by blast
  with p show "os_path_isdir f' p" by (simp add: os_path_isdir_def start f')
qed

lemma create_directory_success:
  assumes "create_directory f dir_name = Inr (f', ustr ''Successfully created directory '' @ dir_name)"
  shows "os_makedirs f (os_path_join BEANS_DIR [dir_name]) True = Inr f'"
proof (cases "os_makedirs f (os_path_join BEANS_DIR [dir_name]) True")
  case (Inr g)
  with assms show ?thesis by (simp add: create_directory_def)
next
  case (Inl e)
  with assms show ?thesis
    by (cases e) (simp_all add: create_directory_def ustr_def)
qed

text \<open>
  Claim C8. \<open>create_directory\<close> is idempotent: for every directory name, when a first
  call has answered \<^verbatim>\<open>Successfully created directory <name>\<close>, a second call with the
  same name on the resulting disk gives the same answer (no error for the directory that
  now exists), changes nothing, and the path is a directory.
\<close>

theorem create_directory_idempotent:
  "create_directory f dir_name = Inr (f', ustr ''Successfully created directory '' @ dir_name) \<Longrightarrow>
     create_directory f' dir_name = Inr (f', ustr ''Successfully created directory '' @ dir_name)
     \<and> os_path_isdir f' (os_path_join BEANS_DIR [dir_name])"
proof -
  assume "create_directory f dir_name = Inr (f', ustr ''Successfully created directory '' @ dir_name)"
  then have ok: "os_makedirs f (os_path_join BEANS_DIR [dir_name]) True = Inr f'"
    by (rule create_directory_success)
  from os_makedirs_again [OF ok] show ?thesis by (simp add: create_directory_def)
qed

theorem create_directory_idempotent_witness:
  "create_directory example_fs (ustr ''sub/d'') =
     Inr (example_fs\<lparr>fs_nodes := (fs_nodes example_fs)
            (example_beans_dir @ [ustr ''sub''] \<mapsto> Dir,
             example_beans_dir @ [ustr ''sub'', ustr ''d''] \<mapsto> Dir)\<rparr>,
          ustr ''Successfully created directory '' @ ustr ''sub/d'')
   \<and> create_directory (example_fs\<lparr>fs_nodes := (fs_nodes example_fs)
            (example_beans_dir @ [ustr ''sub''] \<mapsto> Dir,
             example_beans_dir @ [ustr ''sub'', ustr ''d''] \<mapsto> Dir)\<rparr>) (ustr ''sub/d'') =
     Inr (example_fs\<lparr>fs_nodes := (fs_nodes example_fs)
            (example_beans_dir @ [ustr ''sub''] \<mapsto> Dir,
             example_beans_dir @ [ustr ''sub'', ustr ''d''] \<mapsto> Dir)\<rparr>,
          ustr ''Successfully created directory '' @ ustr ''sub/d'')
   \<and> os_path_isdir (example_fs\<lparr>fs_nodes := (fs_nodes example_fs)
            (example_beans_dir @ [ustr ''sub''] \<mapsto> Dir,
             example_beans_dir @ [ustr ''sub'', ustr ''d''] \<mapsto> Dir)\<rparr>)
        (os_path_join BEANS_DIR [ustr ''sub/d''])"
proof -
  have p: "os_path_join BEANS_DIR [ustr ''sub/d''] = ustr ''./encapt-project/src/main/kotlin/org/camelai/beans/sub/d''"
    by (simp add: example_simps)
  have run: "mkdirs (fs_denied example_fs) (fs_nodes example_fs) (path_start example_fs (os_path_join BEANS_DIR [ustr ''sub/d'']))
      (split_on 47 (os_path_join BEANS_DIR [ustr ''sub/d''])) =
      Inr ((fs_nodes example_fs)
            (example_beans_dir @ [ustr ''sub''] \<mapsto> Dir,
             example_beans_dir @ [ustr ''sub'', ustr ''d''] \<mapsto> Dir))"
    unfolding p by (simp add: example_simps)
  have first: "create_directory example_fs (ustr ''sub/d'') =
     Inr (example_fs\<lparr>fs_nodes := (fs_nodes example_fs)
            (example_beans_dir @ [ustr ''sub''] \<mapsto> Dir,
             example_beans_dir @ [ustr ''sub'', ustr ''d''] \<mapsto> Dir)\<rparr>,
          ustr ''Successfully created directory '' @ ustr ''sub/d'')"
    unfolding create_directory_def os_makedirs_def Let_def run
    by (simp add: p) (simp add: ustr_def)
  from create_directory_idempotent [OF first] first show ?thesis by simp
qed

subsection \<open>Running the tests\<close>

lemma run_all_bean_tests_cases:
  "run_all_bean_tests launch =
     (case launch [ustr ''./gradlew'', ustr ''test'', ustr ''--tests=org.camelai.beans.*''] PROJECT_ROOT of
        Inr r \<Rightarrow> Inr (if returncode r = 0 then stdout r
                       else ustr ''Error running bean tests: '' @ stdout r)
      | Inl (CalledProcessError rc out err) \<Rightarrow> Inr (ustr ''Error running bean tests: '' @ out)
      | Inl e \<Rightarrow> Inl e)"
  by (simp add: run_all_bean_tests_def subprocess_run_def split: sum.splits exn.splits)

lemma run_specific_bean_test_cases:
  "run_specific_bean_test launch bean_name =
     (case launch [ustr ''./gradlew'', ustr ''test'',
                   ustr ''--tests=org.camelai.beans.'' @ bean_name @ ustr ''Test''] PROJECT_ROOT of
        Inr r \<Rightarrow> Inr (if returncode r = 0 then stdout r
                       else ustr ''Error running test for '' @ bean_name @ ustr '': '' @ stdout r)
      | Inl (CalledProcessError rc out err) \<Rightarrow>
          Inr (ustr ''Error running test for '' @ bean_name @ ustr '': '' @ out)
      | Inl e \<Rightarrow> Inl e)"
  by (simp add: run_specific_bean_test_def subprocess_run_def split: sum.splits exn.splits)

text \<open>
  Claim C3 (as amended). For \<open>run_all_bean_tests\<close> and \<open>run_specific_bean_test\<close>: when the
  test process runs to its end with status zero, the tool returns the captured standard
  output as it is; when it ends with another status, the tool returns an error string
  that ends with the captured standard output
  (\<^verbatim>\<open>Error running bean tests: \<close> or \<^verbatim>\<open>Error running test for <name>: \<close> before it) and
  raises nothing. When the process cannot be started and \<^verbatim>\<open>subprocess.run\<close> raises an
  \<^verbatim>\<open>OSError\<close>, the tool does not catch it: the exception leaves the tool.
\<close>

theorem run_tests_outcomes:
  "(launch [ustr ''./gradlew'', ustr ''test'', ustr ''--tests=org.camelai.beans.*''] PROJECT_ROOT = Inr r \<longrightarrow>
      run_all_bean_tests launch =
        Inr (if returncode r = 0 then stdout r
             else ustr ''Error running bean tests: '' @ stdout r))
   \<and> (launch [ustr ''./gradlew'', ustr ''test'', ustr ''--tests=org.camelai.beans.*''] PROJECT_ROOT
         = Inl (OSError e msg) \<longrightarrow>
      run_all_bean_tests launch = Inl (OSError e msg))
   \<and> (launch [ustr ''./gradlew'', ustr ''test'',
               ustr ''--tests=org.camelai.beans.'' @ bean_name @ ustr ''Test''] PROJECT_ROOT = Inr r' \<longrightarrow>
      run_specific_bean_test launch bean_name =
        Inr (if returncode r' = 0 then stdout r'
             else ustr ''Error running test for '' @ bean_name @ ustr '': '' @ stdout r'))
   \<and> (launch [ustr ''./gradlew'', ustr ''test'',
               ustr ''--tests=org.camelai.beans.'' @ bean_name @ ustr ''Test''] PROJECT_ROOT
         = Inl (OSError e' msg') \<longrightarrow>
      run_specific_bean_test launch bean_name = Inl (OSError e' msg'))"
proof (intro conjI impI)
  assume "launch [ustr ''./gradlew'', ustr ''test'', ustr ''--tests=org.camelai.beans.*'']
            PROJECT_ROOT = Inr r"
  then show "run_all_bean_tests launch =
        Inr (if returncode r = 0 then stdout r
             else ustr ''Error running bean tests: '' @ stdout r)"
    by (simp add: run_all_bean_tests_cases)
next
  assume "launch [ustr ''./gradlew'', ustr ''test'', ustr ''--tests=org.camelai.beans.*'']
            PROJECT_ROOT = Inl (OSError e msg)"
  then show "run_all_bean_tests launch = Inl (OSError e msg)"
    by (simp add: run_all_bean_tests_cases)
next
  assume "launch [ustr ''./gradlew'', ustr ''test'',
                  ustr ''--tests=org.camelai.beans.'' @ bean_name @ ustr ''Test'']
            PROJECT_ROOT = Inr r'"
  then show "run_specific_bean_test launch bean_name =
        Inr (if returncode r' = 0 then stdout r'
             else ustr ''Error running test for '' @ bean_name @ ustr '': '' @ stdout r')"
    by (simp add: run_specific_bean_test_cases)
next
  assume "launch [ustr ''./gradlew'', ustr ''test'',
                  ustr ''--tests=org.camelai.beans.'' @ bean_name @ ustr ''Test'']
            PROJECT_ROOT = Inl (OSError e' msg')"
  then show "run_specific_bean_test launch bean_name = Inl (OSError e' msg')"
    by (simp add: run_specific_bean_test_cases)
qed

theorem run_tests_outcomes_witness:
  "run_all_bean_tests example_launch_passed = Inr (ustr ''BUILD SUCCESSFUL'')
   \<and> run_all_bean_tests example_launch_failed = Inr (ustr ''Error running bean tests: FooTest FAILED'')
   \<and> run_all_bean_tests example_launch_missing =
       Inl (OSError ENOENT (ustr ''[Errno 2] No such file or directory: ./gradlew''))
   \<and> run_specific_bean_test example_launch_passed (ustr ''Foo'') = Inr (ustr ''BUILD SUCCESSFUL'')
   \<and> run_specific_bean_test example_launch_failed (ustr ''Foo'') =
       Inr (ustr ''Error running test for Foo: FooTest FAILED'')
   \<and> run_specific_bean_test example_launch_missing (ustr ''Foo'') =
       Inl (OSError ENOENT (ustr ''[Errno 2] No such file or directory: ./gradlew''))"
  using
    run_tests_outcomes [of example_launch_passed
      "\<lparr>returncode = 0, stdout = ustr ''BUILD SUCCESSFUL'', stderr = []\<rparr>" _ _ "ustr ''Foo''"
      "\<lparr>returncode = 0, stdout = ustr ''BUILD SUCCESSFUL'', stderr = []\<rparr>"]
    run_tests_outcomes [of example_launch_failed
      "\<lparr>returncode = 1, stdout = ustr ''FooTest FAILED'', stderr = ustr ''BUILD FAILED''\<rparr>" _ _
      "ustr ''Foo''"
      "\<lparr>returncode = 1, stdout = ustr ''FooTest FAILED'', stderr = ustr ''BUILD FAILED''\<rparr>"]
    run_tests_outcomes [of example_launch_missing _ ENOENT
      "ustr ''[Errno 2] No such file or directory: ./gradlew''" "ustr ''Foo''" _ ENOENT
      "ustr ''[Errno 2] No such file or directory: ./gradlew''"]
  by (simp add: example_launch_passed_def example_launch_failed_def example_launch_missing_def
      ustr_def)

text \<open>
  The claim as first stated says that no exception leaves the tools. Where
  \<^verbatim>\<open>./gradlew\<close> is missing, both tools end with the \<^verbatim>\<open>OSError\<close> of the launch, not with
  a string.
\<close>

theorem run_tests_exception_escapes_counterexample:
  "run_all_bean_tests example_launch_missing =
     Inl (OSError ENOENT (ustr ''[Errno 2] No such file or directory: ./gradlew''))
   \<and> run_specific_bean_test example_launch_missing (ustr ''Foo'') =
     Inl (OSError ENOENT (ustr ''[Errno 2] No such file or directory: ./gradlew''))"
  by (simp add: run_all_bean_tests_def run_specific_bean_test_def subprocess_run_def
      example_launch_missing_def)

subsection \<open>Loading the beans\<close>

lemma split_on_hd: "hd (split_on sep s) = takeWhile (\<lambda>c. c \<noteq> sep) s"
proof (induction s)
  case Nil
  then show ?case by simp
next
  case (Cons c cs)
  with split_on_not_Nil [of sep cs] show ?case by (cases "split_on sep cs") auto
qed

lemma split_first_takeWhile: "split_first sep s = takeWhile (\<lambda>c. c \<noteq> sep) s"
  by (simp add: split_first_def split_on_hd)

lemma file_location_not_root: "file_location f p = Inr loc \<Longrightarrow> loc \<noteq> []"
  by (auto simp: file_location_def Let_def split: if_splits sum.splits)

lemma os_open_r_Inr:
  assumes "os_open_r f p = Inr t"
  shows "\<exists>loc raw u. file_location f p = Inr loc \<and> fs_nodes f loc = Some (File raw)
           \<and> utf8_decode raw = Some u \<and> t = universal_newlines u"
proof -
  from assms obtain loc where loc: "open_path f p = Inr loc"
    by (cases "open_path f p") (auto simp: os_open_r_def)
  note at = open_path_Inr [OF loc]
  from file_location_not_root [OF at] have "node_at (fs_nodes f) loc = fs_nodes f loc"
    by (simp add: node_at_def)
  with assms loc obtain raw u where "fs_nodes f loc = Some (File raw)"
    and "utf8_decode raw = Some u" and "t = universal_newlines u"
    by (auto simp: os_open_r_def split: option.splits node.splits)
  with at show ?thesis by blast
qed

lemma new_QuarkusBean_Inr:
  assumes "new_QuarkusBean f path = Inr b"
  shows "file_path b = path"
    and "name b = split_first 46 (os_path_basename path)"
    and "os_open_r f path = Inr (content b)"
    and "doc_comment b = extract_doc_comment (content b)"
  using assms
  by (auto simp: new_QuarkusBean_def read_file_def split: sum.splits prod.splits)

lemmas bean_simps = new_QuarkusBean_def read_file_def os_open_r_def split_first_takeWhile
  os_path_basename_def extract_doc_comment_def str_find_def slice_def strip_def isspace_def
  open_simps continuation_def

text \<open>
  Claim C6 (as amended). For every loaded source file, the bean's name is the part of
  the file's base name before its first \<^verbatim>\<open>.\<close> (for a base name \<open>stem\<close>\<^verbatim>\<open>.kt\<close> whose \<open>stem\<close>
  has no \<^verbatim>\<open>.\<close>, that is the base name without its extension), and its content is the
  text of the file as a read in text mode gives it: the bytes of the file decoded, with
  every \<^verbatim>\<open>\r\n\<close> and every \<^verbatim>\<open>\r\<close> alone replaced by \<^verbatim>\<open>\n\<close>. For a file whose text has no
  \<^verbatim>\<open>\r\<close>, the content is the full text of the file.
\<close>

theorem bean_name_and_content:
  "new_QuarkusBean f path = Inr b \<Longrightarrow>
     name b = takeWhile (\<lambda>c. c \<noteq> 46) (os_path_basename path)
     \<and> (\<exists>loc raw t. file_location f path = Inr loc \<and> fs_nodes f loc = Some (File raw)
           \<and> utf8_decode raw = Some t \<and> content b = universal_newlines t
           \<and> (13 \<notin> set t \<longrightarrow> content b = t))
     \<and> (\<forall>stem. os_path_basename path = stem @ ustr ''.kt'' \<and> 46 \<notin> set stem \<longrightarrow> name b = stem)"
proof -
  assume b: "new_QuarkusBean f path = Inr b"
  have nm: "name b = takeWhile (\<lambda>c. c \<noteq> 46) (os_path_basename path)"
    using new_QuarkusBean_Inr(2) [OF b] by (simp add: split_first_takeWhile)
  have "name b = stem" if "os_path_basename path = stem @ ustr ''.kt''" "46 \<notin> set stem" for stem
  proof -
    have "takeWhile (\<lambda>c. c \<noteq> 46) (stem @ ustr ''.kt'') = stem"
      using that(2) by (induction stem) (auto simp: ustr_def)
    with nm that(1) show ?thesis by simp
  qed
  moreover from os_open_r_Inr [OF new_QuarkusBean_Inr(3) [OF b]]
  obtain loc raw t where "file_location f path = Inr loc" "fs_nodes f loc = Some (File raw)"
    "utf8_decode raw = Some t" and c: "content b = universal_newlines t"
    by blast
  moreover from c have "13 \<notin> set t \<longrightarrow> content b = t"
    by (simp add: universal_newlines_plain)
  ultimately show ?thesis using nm c by blast
qed

text \<open>
  The claim as first stated gives the file \<^verbatim>\<open>A.b.kt\<close> the name \<^verbatim>\<open>A.b\<close>; the code
  gives it the name \<^verbatim>\<open>A\<close>.
\<close>

theorem bean_name_first_dot_counterexample:
  "new_QuarkusBean example_fs3 (os_path_join BEANS_DIR [ustr ''A.b.kt'']) =
     Inr \<lparr>file_path = ustr ''./encapt-project/src/main/kotlin/org/camelai/beans/A.b.kt'',
          name = ustr ''A'',
          content = ustr ''class A'',
          doc_comment = []\<rparr>
   \<and> ustr ''A'' \<noteq> ustr ''A.b''"
  by (simp add: example_fs3_def bean_simps example_simps)

theorem bean_name_and_content_witness:
  "new_QuarkusBean example_fs2 (ustr ''./encapt-project/src/main/kotlin/org/camelai/beans/a/Foo.kt'')
     = Inr (hd example_beans2)
   \<and> name (hd example_beans2) = ustr ''Foo''
   \<and> fs_nodes example_fs2 (example_beans_dir @ [ustr ''a'', ustr ''Foo.kt''])
     = Some (File (content (hd example_beans2)))
   \<and> fs_nodes example_fs3 (example_beans_dir @ [ustr ''Crlf.kt''])
     = Some (File (ustr ''/** doc */'' @ [13, 10] @ ustr ''class Crlf'' @ [13, 10]))
   \<and> new_QuarkusBean example_fs3 (os_path_join BEANS_DIR [ustr ''Crlf.kt'']) =
     Inr \<lparr>file_path = ustr ''./encapt-project/src/main/kotlin/org/camelai/beans/Crlf.kt'',
          name = ustr ''Crlf'',
          content = ustr ''/** doc */'' @ [10] @ ustr ''class Crlf'' @ [10],
          doc_comment = ustr ''/** doc */''\<rparr>"
proof -
  have b: "new_QuarkusBean example_fs2 (ustr ''./encapt-project/src/main/kotlin/org/camelai/beans/a/Foo.kt'')
     = Inr (hd example_beans2)"
    by (simp add: example_fs2_def example_beans2_def bean_simps example_simps)
  have base: "os_path_basename (ustr ''./encapt-project/src/main/kotlin/org/camelai/beans/a/Foo.kt'')
      = ustr ''Foo'' @ ustr ''.kt'' \<and> 46 \<notin> set (ustr ''Foo'')"
    by (simp add: os_path_basename_def ustr_def)
  from bean_name_and_content [OF b] base have nm: "name (hd example_beans2) = ustr ''Foo''"
    by blast
  have stored: "fs_nodes example_fs2 (example_beans_dir @ [ustr ''a'', ustr ''Foo.kt''])
     = Some (File (content (hd example_beans2)))"
    by (simp add: example_fs2_def example_beans2_def example_fs_def example_beans_dir_def ustr_def)
  have crlf: "fs_nodes example_fs3 (example_beans_dir @ [ustr ''Crlf.kt''])
     = Some (File (ustr ''/** doc */'' @ [13, 10] @ ustr ''class Crlf'' @ [13, 10]))"
    by (simp add: example_fs3_def)
  have c: "new_QuarkusBean example_fs3 (os_path_join BEANS_DIR [ustr ''Crlf.kt'']) =
     Inr \<lparr>file_path = ustr ''./encapt-project/src/main/kotlin/org/camelai/beans/Crlf.kt'',
          name = ustr ''Crlf'',
          content = ustr ''/** doc */'' @ [10] @ ustr ''class Crlf'' @ [10],
          doc_comment = ustr ''/** doc */''\<rparr>"
    by (simp add: example_fs3_def bean_simps example_simps)
  from b nm stored crlf c show ?thesis by simp
qed

text \<open>
  A file whose bytes are not text: the read raises, and so does the constructor.
\<close>

lemma new_QuarkusBean_undecodable_example:
  "new_QuarkusBean (example_fs\<lparr>fs_nodes := (fs_nodes example_fs)
        (example_beans_dir @ [ustr ''Bad.kt''] \<mapsto> File [255])\<rparr>)
     (os_path_join BEANS_DIR [ustr ''Bad.kt'']) = Inl UnicodeDecodeError"
  by (simp add: bean_simps example_simps)

lemma load_files_paths:
  "load_files f root files acc = Inr bs \<Longrightarrow>
     map file_path bs =
       map file_path acc
       @ map (\<lambda>file. os_path_join root [file]) (filter (\<lambda>file. endswith file (ustr ''.kt'')) files)"
proof (induction files arbitrary: acc)
  case Nil
  then show ?case by simp
next
  case (Cons fl fls)
  show ?case
  proof (cases "endswith fl (ustr ''.kt'')")
    case False
    with Cons show ?thesis by simp
  next
    case True
    with Cons.prems obtain b where b: "new_QuarkusBean f (os_path_join root [fl]) = Inr b"
      and rest: "load_files f root fls (acc @ [b]) = Inr bs"
      by (auto split: sum.splits)
    from Cons.IH [OF rest] new_QuarkusBean_Inr(1) [OF b] True show ?thesis by simp
  qed
qed

lemma load_dirs_paths:
  "load_dirs f walked acc = Inr bs \<Longrightarrow>
     map file_path bs =
       map file_path acc
       @ concat (map (\<lambda>(root, dirs, files).
           map (\<lambda>file. os_path_join root [file])
             (filter (\<lambda>file. endswith file (ustr ''.kt'')) files)) walked)"
proof (induction walked arbitrary: acc)
  case Nil
  then show ?case by simp
next
  case (Cons w walked)
  obtain root dirs files where w: "w = (root, dirs, files)" by (cases w)
  with Cons.prems obtain acc' where first: "load_files f root files acc = Inr acc'"
    and rest: "load_dirs f walked acc' = Inr bs"
    by (auto split: sum.splits)
  from Cons.IH [OF rest] load_files_paths [OF first] w show ?case by simp
qed

lemma example_load2: "load_beans example_fs2 example_walked2 = Inr example_beans2"
  by (simp add: load_beans_def example_walked2_def example_fs2_def example_beans2_def
      bean_simps example_simps)

lemma load_files_filter:
  "load_files f root files acc =
     load_files f root (filter (\<lambda>file. endswith file (ustr ''.kt'')) files) acc"
  by (induction files arbitrary: acc) (auto split: sum.splits)

lemma load_dirs_filter:
  "load_dirs f walked acc =
     load_dirs f (map (\<lambda>(root, dirs, files).
        (root, dirs, filter (\<lambda>file. endswith file (ustr ''.kt'')) files)) walked) acc"
proof (induction walked arbitrary: acc)
  case Nil
  then show ?case by simp
next
  case (Cons w walked)
  obtain root dirs files where w: "w = (root, dirs, files)" by (cases w)
  show ?case
    using Cons.IH load_files_filter [of f root files acc]
    by (simp add: w split: sum.splits)
qed

text \<open>
  Claim C10. The ending \<^verbatim>\<open>.kt\<close> is matched with its case. The loader makes a bean of
  exactly the files of the walk whose names end in the lower-case \<^verbatim>\<open>.kt\<close>, in the order
  of the walk (a file \<^verbatim>\<open>Foo.KT\<close> is skipped, and the files with other endings have no
  influence on the outcome of loading), and \<open>write_file\<close> answers every name that
  does not end in the lower-case \<^verbatim>\<open>.kt\<close> (\<^verbatim>\<open>Foo.KT\<close>, for one) with the error string
  \<^verbatim>\<open>Error: Only .kt files are allowed.\<close> and leaves the disk as it is.
\<close>

theorem extension_case_sensitive:
  "(load_beans f walked = Inr bs \<longrightarrow>
      map file_path bs =
        concat (map (\<lambda>(root, dirs, files).
          map (\<lambda>file. os_path_join root [file])
            (filter (\<lambda>file. endswith file (ustr ''.kt'')) files)) walked))
   \<and> load_beans f walked =
       load_beans f (map (\<lambda>(root, dirs, files).
         (root, dirs, filter (\<lambda>file. endswith file (ustr ''.kt'')) files)) walked)
   \<and> load_beans f [(root, dirs, [ustr ''Foo.KT''])] = Inr []
   \<and> (\<not> endswith file_name (ustr ''.kt'') \<longrightarrow>
        write_file f file_name c = Inr (f, ustr ''Error: Only .kt files are allowed.''))
   \<and> write_file f (ustr ''Foo.KT'') c = Inr (f, ustr ''Error: Only .kt files are allowed.'')"
proof (intro conjI impI)
  assume "load_beans f walked = Inr bs"
  then have "load_dirs f walked [] = Inr bs" by (simp add: load_beans_def)
  from load_dirs_paths [OF this]
  show "map file_path bs =
        concat (map (\<lambda>(root, dirs, files).
          map (\<lambda>file. os_path_join root [file])
            (filter (\<lambda>file. endswith file (ustr ''.kt'')) files)) walked)" by simp
next
  show "load_beans f walked =
       load_beans f (map (\<lambda>(root, dirs, files).
         (root, dirs, filter (\<lambda>file. endswith file (ustr ''.kt'')) files)) walked)"
    unfolding load_beans_def by (rule load_dirs_filter)
next
  have "\<not> endswith (ustr ''Foo.KT'') (ustr ''.kt'')" by (simp add: endswith_def ustr_def)
  then show "load_beans f [(root, dirs, [ustr ''Foo.KT''])] = Inr []"
    by (simp add: load_beans_def)
next
  assume "\<not> endswith file_name (ustr ''.kt'')"
  then show "write_file f file_name c = Inr (f, ustr ''Error: Only .kt files are allowed.'')"
    by (rule write_file_not_kt)
next
  have "\<not> endswith (ustr ''Foo.KT'') (ustr ''.kt'')" by (simp add: endswith_def ustr_def)
  then show "write_file f (ustr ''Foo.KT'') c = Inr (f, ustr ''Error: Only .kt files are allowed.'')"
    by (rule write_file_not_kt)
qed

theorem extension_case_sensitive_witness:
  "load_beans example_fs2 example_walked2 = Inr example_beans2
   \<and> map file_path example_beans2 =
       [ustr ''./encapt-project/src/main/kotlin/org/camelai/beans/a/Foo.kt'',
        ustr ''./encapt-project/src/main/kotlin/org/camelai/beans/b/Foo.kt'']
   \<and> \<not> endswith (ustr ''Bar.KT'') (ustr ''.kt'')
   \<and> write_file example_fs2 (ustr ''Bar.KT'') (ustr ''class Bar'') =
       Inr (example_fs2, ustr ''Error: Only .kt files are allowed.'')"
proof -
  have l: "load_beans example_fs2 example_walked2 = Inr example_beans2"
    by (rule example_load2)
  have n: "\<not> endswith (ustr ''Bar.KT'') (ustr ''.kt'')"
    by (simp add: endswith_def ustr_def)
  have paths: "concat (map (\<lambda>(root, dirs, files).
          map (\<lambda>file. os_path_join root [file])
            (filter (\<lambda>file. endswith file (ustr ''.kt'')) files)) example_walked2)
      = [ustr ''./encapt-project/src/main/kotlin/org/camelai/beans/a/Foo.kt'',
         ustr ''./encapt-project/src/main/kotlin/org/camelai/beans/b/Foo.kt'']"
    by (simp add: example_walked2_def example_simps)
  from extension_case_sensitive [of example_fs2 example_walked2 example_beans2 _ _ "ustr ''Bar.KT''" "ustr ''class Bar''"]
    l n paths show ?thesis by simp
qed

subsection \<open>The agents of the workforce\<close>

lemma create_agents:
  "workforce (foldl (\<lambda>s bean. create_bean_agent s bean m fl) s0 bs) =
     workforce s0 @
     map (\<lambda>b. (name b,
                \<lparr>system_message = \<lparr>role_name = name b @ ustr '' Agent'',
                                    msg_content = bean_agent_content (beans s0) b\<rparr>,
                 agent_model = m, agent_tools = fl\<rparr>)) bs
   \<and> beans (foldl (\<lambda>s bean. create_bean_agent s bean m fl) s0 bs) = beans s0"
proof (induction bs arbitrary: s0)
  case Nil
  then show ?case by simp
next
  case (Cons b bs)
  have step: "workforce (create_bean_agent s0 b m fl) =
      workforce s0 @ [(name b,
                \<lparr>system_message = \<lparr>role_name = name b @ ustr '' Agent'',
                                    msg_content = bean_agent_content (beans s0) b\<rparr>,
                 agent_model = m, agent_tools = fl\<rparr>)]"
    and keep: "beans (create_bean_agent s0 b m fl) = beans s0"
    by (simp_all add: create_bean_agent_def add_single_agent_worker_def)
  from Cons.IH [of "create_bean_agent s0 b m fl"] step keep show ?case by simp
qed

lemma setup_workforce_workers:
  "worker_agents (setup_workforce \<lparr>workforce = [], beans = bs\<rparr> m) =
     map (\<lambda>b. (name b,
                \<lparr>system_message = \<lparr>role_name = name b @ ustr '' Agent'',
                                    msg_content = bean_agent_content bs b\<rparr>,
                 agent_model = m, agent_tools = get_tools\<rparr>)) bs"
  by (simp add: worker_agents_def setup_workforce_def Let_def create_agents
      add_single_agent_worker_def)

lemma setup_workforce_manager:
  "hd (workforce (setup_workforce \<lparr>workforce = [], beans = bs\<rparr> m)) =
     (ustr ''Manager'',
      \<lparr>system_message = \<lparr>role_name = ustr ''Manager Agent'', msg_content = manager_content\<rparr>,
       agent_model = m, agent_tools = get_tools\<rparr>)
   \<and> workforce (setup_workforce \<lparr>workforce = [], beans = bs\<rparr> m) \<noteq> []"
  by (simp add: setup_workforce_def Let_def create_agents add_single_agent_worker_def)

lemma filter_other_distinct:
  "distinct (map name bs) \<Longrightarrow> i < length bs \<Longrightarrow>
     filter (\<lambda>b. name b \<noteq> name (bs ! i)) bs = take i bs @ drop (Suc i) bs"
proof -
  assume d: "distinct (map name bs)" and i: "i < length bs"
  have bs: "bs = take i bs @ (bs ! i) # drop (Suc i) bs" using i by (simp add: id_take_nth_drop)
  have "\<forall>b \<in> set (take i bs) \<union> set (drop (Suc i) bs). name b \<noteq> name (bs ! i)"
  proof
    fix b assume "b \<in> set (take i bs) \<union> set (drop (Suc i) bs)"
    then have "name b \<in> set (map name (take i bs)) \<union> set (map name (drop (Suc i) bs))" by auto
    moreover have "distinct (map name (take i bs) @ name (bs ! i) # map name (drop (Suc i) bs))"
      using d bs by (metis list.simps(9) map_append)
    then have "name (bs ! i) \<notin> set (map name (take i bs)) \<union> set (map name (drop (Suc i) bs))"
      by simp
    ultimately show "name b \<noteq> name (bs ! i)" by metis
  qed
  then have "filter (\<lambda>b. name b \<noteq> name (bs ! i)) (take i bs) = take i bs"
    and "filter (\<lambda>b. name b \<noteq> name (bs ! i)) (drop (Suc i) bs) = drop (Suc i) bs"
    by (simp_all add: filter_id_conv)
  then have "filter (\<lambda>b. name b \<noteq> name (bs ! i)) (take i bs @ (bs ! i) # drop (Suc i) bs)
      = take i bs @ drop (Suc i) bs" by simp
  with bs show ?thesis by simp
qed

text \<open>
  Claim C2 (as amended). For every list of loaded beans, the empty list too, the set-up
  registers one worker agent for each bean, in the order of the beans and under the
  bean's name: the names of the worker agents are the names of the beans, none more and
  none less. The system message of the agent of a bean \<open>b\<close> lists, as \<^verbatim>\<open>name: doc\<close> joined
  by \<^verbatim>\<open>, \<close>, exactly the loaded beans whose name differs from the name of \<open>b\<close>, never \<open>b\<close>
  itself. When the names of the loaded beans are pairwise distinct, the names of the
  worker agents are pairwise distinct as well and every agent's message lists every
  other loaded bean.
\<close>

theorem worker_agents_match_beans:
  "map fst (worker_agents (setup_workforce \<lparr>workforce = [], beans = bs\<rparr> m)) = map name bs
   \<and> map (\<lambda>w. msg_content (system_message (snd w)))
        (worker_agents (setup_workforce \<lparr>workforce = [], beans = bs\<rparr> m))
      = map (bean_agent_content bs) bs
   \<and> (\<forall>b. bean_agent_content bs b =
          worker_intro @ name b @ worker_responsibilities @ doc_comment b @ worker_others
          @ join (ustr '', '') (other_beans bs b) @ worker_rules)
   \<and> (\<forall>b. other_beans bs b =
          map (\<lambda>p. name p @ ustr '': '' @ doc_comment p) (filter (\<lambda>p. name p \<noteq> name b) bs))
   \<and> (distinct (map name bs) \<longrightarrow>
        distinct (map fst (worker_agents (setup_workforce \<lparr>workforce = [], beans = bs\<rparr> m)))
        \<and> (\<forall>i<length bs. other_beans bs (bs ! i) =
              map (\<lambda>p. name p @ ustr '': '' @ doc_comment p) (take i bs @ drop (Suc i) bs)))"
proof (intro conjI impI allI)
  show "map fst (worker_agents (setup_workforce \<lparr>workforce = [], beans = bs\<rparr> m)) = map name bs"
    by (simp add: setup_workforce_workers comp_def)
  show "map (\<lambda>w. msg_content (system_message (snd w)))
        (worker_agents (setup_workforce \<lparr>workforce = [], beans = bs\<rparr> m))
      = map (bean_agent_content bs) bs"
    by (simp add: setup_workforce_workers comp_def)
  show "bean_agent_content bs b =
          worker_intro @ name b @ worker_responsibilities @ doc_comment b @ worker_others
          @ join (ustr '', '') (other_beans bs b) @ worker_rules" for b
    by (simp add: bean_agent_content_def)
  show "other_beans bs b =
          map (\<lambda>p. name p @ ustr '': '' @ doc_comment p) (filter (\<lambda>p. name p \<noteq> name b) bs)" for b
    by (simp add: other_beans_def)
next
  assume "distinct (map name bs)"
  then show "distinct (map fst (worker_agents (setup_workforce \<lparr>workforce = [], beans = bs\<rparr> m)))"
    by (simp add: setup_workforce_workers comp_def)
next
  fix i assume "distinct (map name bs)" "i < length bs"
  then show "other_beans bs (bs ! i) =
              map (\<lambda>p. name p @ ustr '': '' @ doc_comment p) (take i bs @ drop (Suc i) bs)"
    by (simp add: other_beans_def filter_other_distinct)
qed

theorem worker_agents_match_beans_witness:
  "distinct (map name example_beans3)
   \<and> map fst (worker_agents (setup_workforce \<lparr>workforce = [], beans = example_beans3\<rparr> ()))
       = [ustr ''UserService'', ustr ''OrderHistoryService'']
   \<and> other_beans example_beans3 (example_beans3 ! 0)
       = [ustr ''OrderHistoryService: /** manages orders */'']
   \<and> other_beans example_beans3 (example_beans3 ! 1)
       = [ustr ''UserService: /** manages users */'']"
proof -
  note inst = worker_agents_match_beans [of example_beans3 "()"]
  have d: "distinct (map name example_beans3)"
    by (simp add: example_beans3_def ustr_def)
  have len: "0 < length example_beans3" "1 < length example_beans3"
    by (simp_all add: example_beans3_def)
  from inst have names: "map fst (worker_agents (setup_workforce \<lparr>workforce = [], beans = example_beans3\<rparr> ()))
       = map name example_beans3" by blast
  from inst d len(1) have o0: "other_beans example_beans3 (example_beans3 ! 0) =
      map (\<lambda>p. name p @ ustr '': '' @ doc_comment p) (take 0 example_beans3 @ drop (Suc 0) example_beans3)"
    by blast
  from inst d len(2) have o1: "other_beans example_beans3 (example_beans3 ! 1) =
      map (\<lambda>p. name p @ ustr '': '' @ doc_comment p) (take 1 example_beans3 @ drop (Suc 1) example_beans3)"
    by blast
  have "map name example_beans3 = [ustr ''UserService'', ustr ''OrderHistoryService'']"
    by (simp add: example_beans3_def)
  moreover have "map (\<lambda>p. name p @ ustr '': '' @ doc_comment p) (take 0 example_beans3 @ drop (Suc 0) example_beans3)
      = [ustr ''OrderHistoryService: /** manages orders */'']"
    by (simp add: example_beans3_def ustr_def)
  moreover have "map (\<lambda>p. name p @ ustr '': '' @ doc_comment p) (take 1 example_beans3 @ drop (Suc 1) example_beans3)
      = [ustr ''UserService: /** manages users */'']"
    by (simp add: example_beans3_def ustr_def)
  ultimately show ?thesis using d names o0 o1 by simp
qed

text \<open>
  The claim as first stated covers files with equal base names in different
  subdirectories. On \<open>example_fs2\<close> the loader finds \<^verbatim>\<open>a/Foo.kt\<close> and \<^verbatim>\<open>b/Foo.kt\<close>: two
  beans, two worker agents with the one name \<^verbatim>\<open>Foo\<close>, and neither agent's message lists
  the other bean.
\<close>

theorem worker_agents_equal_names_counterexample:
  "load_beans example_fs2 example_walked2 = Inr example_beans2
   \<and> file_path (hd example_beans2) \<noteq> file_path (last example_beans2)
   \<and> map fst (worker_agents (setup_workforce \<lparr>workforce = [], beans = example_beans2\<rparr> ()))
       = [ustr ''Foo'', ustr ''Foo'']
   \<and> other_beans example_beans2 (hd example_beans2) = []
   \<and> other_beans example_beans2 (last example_beans2) = []"
proof -
  have "map fst (worker_agents (setup_workforce \<lparr>workforce = [], beans = example_beans2\<rparr> ()))
       = [ustr ''Foo'', ustr ''Foo'']"
    by (simp add: setup_workforce_workers comp_def example_beans2_def)
  moreover have "file_path (hd example_beans2) \<noteq> file_path (last example_beans2)"
    by (simp add: example_beans2_def ustr_def)
  moreover have "other_beans example_beans2 (hd example_beans2) = []"
    "other_beans example_beans2 (last example_beans2) = []"
    by (simp_all add: other_beans_def example_beans2_def)
  ultimately show ?thesis using example_load2 by simp
qed

lemma other_beans_by_key:
  "other_beans bs b =
     map (\<lambda>q. fst q @ ustr '': '' @ snd q)
       (filter (\<lambda>q. fst q \<noteq> name b) (map (\<lambda>b. (name b, doc_comment b)) bs))"
  by (simp add: other_beans_def filter_map comp_def)

lemma workforce_prompts_by_key:
  "map (\<lambda>w. (fst w, system_message (snd w)))
     (workforce (setup_workforce \<lparr>workforce = [], beans = bs\<rparr> m)) =
   (ustr ''Manager'', \<lparr>role_name = ustr ''Manager Agent'', msg_content = manager_content\<rparr>) #
   map (\<lambda>p. (fst p,
             \<lparr>role_name = fst p @ ustr '' Agent'',
              msg_content =
                worker_intro @ fst p @ worker_responsibilities @ snd p @ worker_others
                @ join (ustr '', '')
                    (map (\<lambda>q. fst q @ ustr '': '' @ snd q)
                       (filter (\<lambda>q. fst q \<noteq> fst p) (map (\<lambda>b. (name b, doc_comment b)) bs)))
                @ worker_rules\<rparr>))
     (map (\<lambda>b. (name b, doc_comment b)) bs)"
  by (simp add: setup_workforce_def Let_def create_agents add_single_agent_worker_def comp_def
      bean_agent_content_def other_beans_by_key)

text \<open>
  Claim C7. The system messages are a function of the names and doc comments of the
  beans, in their order: two set-ups over bean lists with the same names and doc comments
  in the same order register workers with the same descriptions and the same system
  messages (role name and text), the manager's and every bean agent's, whatever the
  paths and contents of the files and whatever the model.
\<close>

theorem prompts_deterministic:
  "map (\<lambda>b. (name b, doc_comment b)) bs1 = map (\<lambda>b. (name b, doc_comment b)) bs2 \<Longrightarrow>
     map (\<lambda>w. (fst w, system_message (snd w)))
       (workforce (setup_workforce \<lparr>workforce = [], beans = bs1\<rparr> m1))
     = map (\<lambda>w. (fst w, system_message (snd w)))
       (workforce (setup_workforce \<lparr>workforce = [], beans = bs2\<rparr> m2))"
proof -
  assume same: "map (\<lambda>b. (name b, doc_comment b)) bs1 = map (\<lambda>b. (name b, doc_comment b)) bs2"
  note left = workforce_prompts_by_key [of bs1 m1]
  note right = workforce_prompts_by_key [of bs2 m2]
  from left show ?thesis unfolding right same .
qed

theorem prompts_deterministic_witness:
  "map file_path example_beans2 \<noteq> map file_path example_beans2'
   \<and> map (\<lambda>w. (fst w, system_message (snd w)))
       (workforce (setup_workforce \<lparr>workforce = [], beans = example_beans2\<rparr> (1::nat)))
     = map (\<lambda>w. (fst w, system_message (snd w)))
       (workforce (setup_workforce \<lparr>workforce = [], beans = example_beans2'\<rparr> True))"
proof -
  have k: "map (\<lambda>b. (name b, doc_comment b)) example_beans2
      = map (\<lambda>b. (name b, doc_comment b)) example_beans2'"
    by (simp add: example_beans2_def example_beans2'_def)
  have "map file_path example_beans2 \<noteq> map file_path example_beans2'"
    by (simp add: example_beans2_def example_beans2'_def ustr_def)
  with prompts_deterministic [OF k, of "1::nat" True] show ?thesis by simp
qed

end
